theory Spec2Isabelle
  imports Main "HOL-Library.Multiset" "HOL-Library.Sublist"
begin

section \<open>Values, exceptions and the remote side\<close>

text \<open>
  The values that travel between \<^verbatim>\<open>spotify.py\<close> and the two web APIs are parsed JSON
  documents. A JSON object is kept as an association list (the parser yields distinct
  keys). JSON numbers are integers here: every number the program computes with
  (\<^verbatim>\<open>total\<close>) is an item count.
\<close>

datatype json =
    JNull
  | JBool bool
  | JInt int
  | JStr string
  | JList "json list"
  | JObj "(string \<times> json) list"

text \<open>The Python exceptions that the modelled code can raise.\<close>

datatype exn =
    UnboundLocalError
  | JSONDecodeError
  | KeyError
  | IndexError
  | TypeError
  | AttributeError
  | ConnectionError

text \<open>Sequencing of two steps of which the first may raise.\<close>

definition then_exn :: "exn + 'a \<Rightarrow> ('a \<Rightarrow> exn + 'b) \<Rightarrow> exn + 'b" where
  "then_exn r f = (case r of Inl e \<Rightarrow> Inl e | Inr v \<Rightarrow> f v)"

text \<open>\<^verbatim>\<open>v[key]\<close> with a string key: only a dict can answer; a missing key is a
  \<^verbatim>\<open>KeyError\<close>, any other value a \<^verbatim>\<open>TypeError\<close>.\<close>

fun py_getitem :: "json \<Rightarrow> string \<Rightarrow> exn + json" where
  "py_getitem (JObj kvs) k = (case map_of kvs k of None \<Rightarrow> Inl KeyError | Some v \<Rightarrow> Inr v)"
| "py_getitem _ k = Inl TypeError"

text \<open>\<^verbatim>\<open>v[0]\<close>: the first element of a list or string (\<^verbatim>\<open>IndexError\<close> when empty);
  a dict has no key \<^verbatim>\<open>0\<close> since JSON keys are strings.\<close>

fun py_getitem0 :: "json \<Rightarrow> exn + json" where
  "py_getitem0 (JList []) = Inl IndexError"
| "py_getitem0 (JList (x # xs)) = Inr x"
| "py_getitem0 (JStr []) = Inl IndexError"
| "py_getitem0 (JStr (c # cs)) = Inr (JStr [c])"
| "py_getitem0 (JObj kvs) = Inl KeyError"
| "py_getitem0 _ = Inl TypeError"

text \<open>The elements that \<^verbatim>\<open>list.extend(v)\<close> appends: those of a list, the characters of a
  string, the keys of a dict; any other value is not iterable.\<close>

fun py_iter :: "json \<Rightarrow> exn + json list" where
  "py_iter (JList xs) = Inr xs"
| "py_iter (JStr s) = Inr (map (\<lambda>c. JStr [c]) s)"
| "py_iter (JObj kvs) = Inr (map (\<lambda>kv. JStr (fst kv)) kvs)"
| "py_iter _ = Inl TypeError"

text \<open>A value used as a number: \<^verbatim>\<open>bool\<close> is a subclass of \<^verbatim>\<open>int\<close>.\<close>

fun py_num :: "json \<Rightarrow> exn + int" where
  "py_num (JInt n) = Inr n"
| "py_num (JBool b) = Inr (if b then 1 else 0)"
| "py_num _ = Inl TypeError"

text \<open>Truth value of a Python object (\<^verbatim>\<open>if not v\<close>).\<close>

fun py_truthy :: "json \<Rightarrow> bool" where
  "py_truthy JNull = False"
| "py_truthy (JBool b) = b"
| "py_truthy (JInt n) = (n \<noteq> 0)"
| "py_truthy (JStr s) = (s \<noteq> [])"
| "py_truthy (JList xs) = (xs \<noteq> [])"
| "py_truthy (JObj kvs) = (kvs \<noteq> [])"

text \<open>\<^verbatim>\<open>round(total / 50)\<close>: Python rounds a tie to the even neighbour. With
  \<open>total = 50 q + r\<close>, \<open>0 \<le> r < 50\<close>, the quotient is \<open>q + r/50\<close>. (The float quotient
  is exact enough for this below \<open>2^52\<close>.)\<close>

definition round_div50 :: "int \<Rightarrow> int" where
  "round_div50 tot =
     (let q = tot div 50; r = tot mod 50
      in if r < 25 then q else if r > 25 then q + 1 else if even q then q else q + 1)"

text \<open>\<^verbatim>\<open>math.ceil(n / c)\<close> for an integer \<open>n\<close> and a positive ceiling \<open>c\<close>.\<close>

definition ceil_div :: "int \<Rightarrow> int \<Rightarrow> int" where
  "ceil_div n c = - ((- n) div c)"

text \<open>\<^verbatim>\<open>range(n)\<close>: empty when \<open>n \<le> 0\<close>.\<close>

definition py_range :: "int \<Rightarrow> nat list" where
  "py_range n = [0 ..< nat n]"

subsection \<open>Requests and replies\<close>

datatype meth = GET | POST | DELETE

text \<open>The endpoints are built by f-strings; an endpoint is kept as its shape together with
  the interpolated value.\<close>

datatype endpoint =
    Me
  | MeTracks
  | UserPlaylists json
  | PlaylistTracks json

record request =
  rmethod :: meth
  rendpoint :: endpoint
  rheaders :: "(string \<times> string) list"
  rdata :: "json option"
  rparams :: "(string \<times> int) list option"

text \<open>What \<^verbatim>\<open>requests.<method>(...)\<close> does: it raises (\<open>NetError\<close>) or returns a response
  with a status code and a body, which parses as JSON or does not.\<close>

datatype reply = NetError | Reply int "json option"

type_synonym 'w api = "'w \<Rightarrow> request \<Rightarrow> reply \<times> 'w"

datatype log_entry =
    LogCallException request
  | LogCallStatus request int
  | LogPageFailed endpoint nat
  | LogTokenFailed
  | LogCreateFailed json
  | LogAddFailed json
  | LogInfo string

text \<open>The \<^verbatim>\<open>SpotifyHandler\<close> object, together with the remote state \<open>world\<close>, the
  requests issued through \<^verbatim>\<open>make_call\<close> so far with the reply to each, the enrichment
  lookups dispatched so far (track name and artist) and the log lines written so far.
  \<open>user_id\<close> is \<open>None\<close> until \<^verbatim>\<open>authorize\<close> sets the attribute.\<close>

record 'w handler =
  client_id :: string
  secret_key :: string
  token :: json
  api_headers :: "(string \<times> string) list"
  user_id :: "json option"
  world :: 'w
  reqs :: "request list"
  replies :: "reply list"
  lookups :: "(json \<times> json) list"
  logs :: "log_entry list"

section \<open>SpotifyHandler.make_call\<close>

text \<open>When the request raises, the handler logs and falls through to
  \<^verbatim>\<open>response.status_code\<close> with \<^verbatim>\<open>response\<close> unbound. Otherwise a status other than 200
  is logged and the parsed body is returned, whatever the status.\<close>

definition call_request ::
  "(string \<times> string) list \<Rightarrow> meth \<Rightarrow> endpoint \<Rightarrow> (string \<times> string) list option \<Rightarrow>
   json option \<Rightarrow> (string \<times> int) list option \<Rightarrow> request" where
  "call_request own method ep headers data params =
     \<lparr>rmethod = method, rendpoint = ep,
      rheaders = (case headers of None \<Rightarrow> own | Some hs \<Rightarrow> if hs = [] then own else hs),
      rdata = data, rparams = params\<rparr>"

text \<open>What the caller of \<^verbatim>\<open>make_call\<close> gets for a reply.\<close>

fun reply_json :: "reply \<Rightarrow> exn + json" where
  "reply_json NetError = Inl UnboundLocalError"
| "reply_json (Reply status None) = Inl JSONDecodeError"
| "reply_json (Reply status (Some j)) = Inr j"

text \<open>What \<^verbatim>\<open>make_call\<close> logs for a reply.\<close>

fun call_logs :: "request \<Rightarrow> reply \<Rightarrow> log_entry list" where
  "call_logs req NetError = [LogCallException req]"
| "call_logs req (Reply status body) = (if status \<noteq> 200 then [LogCallStatus req status] else [])"

definition make_call ::
  "'w api \<Rightarrow> 'w handler \<Rightarrow> meth \<Rightarrow> endpoint \<Rightarrow> (string \<times> string) list option \<Rightarrow>
   json option \<Rightarrow> (string \<times> int) list option \<Rightarrow> (exn + json) \<times> 'w handler" where
  "make_call api h method ep headers data params =
     (let req = call_request (api_headers h) method ep headers data params;
          rw = api (world h) req
      in (reply_json (fst rw),
          h\<lparr>world := snd rw, reqs := reqs h @ [req], replies := replies h @ [fst rw],
            logs := logs h @ call_logs req (fst rw)\<rparr>))"

section \<open>SpotifyHandler.get_resource\<close>

text \<open>The body of the page loop: the \<^verbatim>\<open>try\<close> block evaluates the call and its
  \<^verbatim>\<open>["items"]\<close> before \<^verbatim>\<open>extend\<close> runs, and \<^verbatim>\<open>except Exception\<close> logs and goes on.\<close>

definition get_resource_page ::
  "'w api \<Rightarrow> endpoint \<Rightarrow> (string \<times> string) list option \<Rightarrow> json option \<Rightarrow> nat \<Rightarrow>
   json list \<times> 'w handler \<Rightarrow> json list \<times> 'w handler" where
  "get_resource_page api ep headers data page st =
     (let r = make_call api (snd st) GET ep headers data
                (Some [(''offset'', int page * 50), (''limit'', 50)])
      in case then_exn (then_exn (fst r) (\<lambda>j. py_getitem j ''items'')) py_iter of
           Inl e \<Rightarrow> (fst st, (snd r)\<lparr>logs := logs (snd r) @ [LogPageFailed ep page]\<rparr>)
         | Inr xs \<Rightarrow> (fst st @ xs, snd r))"

definition get_resource ::
  "'w api \<Rightarrow> 'w handler \<Rightarrow> endpoint \<Rightarrow> (string \<times> string) list option \<Rightarrow> json option \<Rightarrow>
   (string \<times> int) list option \<Rightarrow> (exn + json list) \<times> 'w handler" where
  "get_resource api h ep headers data params =
     (let r = make_call api h GET ep headers data params
      in case then_exn (then_exn (fst r) (\<lambda>j. py_getitem j ''total'')) py_num of
           Inl e \<Rightarrow> (Inl e, snd r)
         | Inr tot \<Rightarrow>
             (let n = round_div50 tot;
                  st = fold (get_resource_page api ep headers data)
                         (py_range (if n = 0 then 1 else n)) ([], snd r)
              in (Inr (fst st), snd st)))"

text \<open>The request that \<^verbatim>\<open>get_resource\<close> issues for a page.\<close>

definition page_request ::
  "(string \<times> string) list \<Rightarrow> endpoint \<Rightarrow> (string \<times> string) list option \<Rightarrow> json option \<Rightarrow>
   nat \<Rightarrow> request" where
  "page_request own ep headers data page =
     call_request own GET ep headers data (Some [(''offset'', int page * 50), (''limit'', 50)])"

text \<open>The replies of the remote side to a sequence of requests issued one after the other.\<close>

fun replies_of :: "'w api \<Rightarrow> 'w \<Rightarrow> request list \<Rightarrow> reply list" where
  "replies_of api w [] = []"
| "replies_of api w (r # rs) = fst (api w r) # replies_of api (snd (api w r)) rs"

text \<open>The items that a page's reply contributes: those of its \<^verbatim>\<open>items\<close> value, and
  none when the call or the extraction raised.\<close>

definition page_items :: "reply \<Rightarrow> json list" where
  "page_items rep =
     (case then_exn (then_exn (reply_json rep) (\<lambda>j. py_getitem j ''items'')) py_iter of
        Inl e \<Rightarrow> []
      | Inr xs \<Rightarrow> xs)"

definition page_failed :: "reply \<Rightarrow> bool" where
  "page_failed rep =
     (case then_exn (then_exn (reply_json rep) (\<lambda>j. py_getitem j ''items'')) py_iter of
        Inl e \<Rightarrow> True
      | Inr xs \<Rightarrow> False)"

section \<open>Song, Playlist and the comprehensions over fetched items\<close>

text \<open>\<^verbatim>\<open>lan\<close> starts as \<^verbatim>\<open>None\<close> (\<open>JNull\<close>). The fields hold whatever JSON the remote side
  sent.\<close>

record song =
  name :: json
  artist :: json
  lan :: json
  uri :: json

record playlist =
  pl_name :: json
  pl_songs :: "song list"
  playlist_id :: json

text \<open>A list comprehension whose element expression may raise: the first exception ends
  it.\<close>

fun map_exn :: "('a \<Rightarrow> exn + 'b) \<Rightarrow> 'a list \<Rightarrow> exn + 'b list" where
  "map_exn f [] = Inr []"
| "map_exn f (x # xs) = then_exn (f x) (\<lambda>y. then_exn (map_exn f xs) (\<lambda>ys. Inr (y # ys)))"

text \<open>A \<^verbatim>\<open>for\<close> loop over a list whose body may raise or \<^verbatim>\<open>return\<close> a value
  (\<open>Some\<close>); \<open>None\<close> goes on with the next element.\<close>

fun for_loop ::
  "('a \<Rightarrow> 's \<Rightarrow> (exn + 'r option) \<times> 's) \<Rightarrow> 'a list \<Rightarrow> 's \<Rightarrow> (exn + 'r option) \<times> 's" where
  "for_loop body [] s = (Inr None, s)"
| "for_loop body (x # xs) s =
     (let rs = body x s
      in if fst rs = Inr None then for_loop body xs (snd rs) else rs)"

definition new_song :: "json \<Rightarrow> exn + song" where
  "new_song item =
     then_exn (then_exn (py_getitem item ''track'') (\<lambda>t. py_getitem t ''name'')) (\<lambda>n.
     then_exn (then_exn (then_exn (then_exn (py_getitem item ''track'')
                 (\<lambda>t. py_getitem t ''artists'')) py_getitem0) (\<lambda>a. py_getitem a ''name'')) (\<lambda>a.
     then_exn (then_exn (py_getitem item ''track'') (\<lambda>t. py_getitem t ''uri'')) (\<lambda>u.
     Inr \<lparr>name = n, artist = a, lan = JNull, uri = u\<rparr>)))"

definition get_songs :: "'w api \<Rightarrow> 'w handler \<Rightarrow> (exn + song list) \<times> 'w handler" where
  "get_songs api h =
     (let r = get_resource api h MeTracks None None None
      in (then_exn (fst r) (map_exn new_song), snd r))"

definition get_user_id :: "'w api \<Rightarrow> 'w handler \<Rightarrow> (exn + json) \<times> 'w handler" where
  "get_user_id api h =
     (let r = make_call api h GET Me (Some (api_headers h)) None None
      in (then_exn (fst r) (\<lambda>j. py_getitem j ''id''), snd r))"

definition new_playlist :: "json \<Rightarrow> exn + playlist" where
  "new_playlist item =
     then_exn (py_getitem item ''name'') (\<lambda>n.
     then_exn (py_getitem item ''id'') (\<lambda>i.
     Inr \<lparr>pl_name = n, pl_songs = [], playlist_id = i\<rparr>))"

definition get_playlists :: "'w api \<Rightarrow> 'w handler \<Rightarrow> (exn + playlist list) \<times> 'w handler" where
  "get_playlists api h =
     (case user_id h of
        None \<Rightarrow> (Inl AttributeError, h)
      | Some u \<Rightarrow>
          (let r = get_resource api h (UserPlaylists u) None None None
           in (then_exn (fst r) (map_exn new_playlist), snd r)))"

section \<open>SpotifyHandler.get_songs_and_lan\<close>

text \<open>The enrichment side answers a lookup for a track name and artist. The lookups are
  dispatched in list order, and while one is pending \<^verbatim>\<open>track.lan\<close> holds its future:
  here the track is paired with the outcome that \<^verbatim>\<open>result()\<close> will give.\<close>

type_synonym 'w genius = "'w \<Rightarrow> json \<times> json \<Rightarrow> reply \<times> 'w"

text \<open>\<^verbatim>\<open>response.json()\<close> on a response obtained outside \<^verbatim>\<open>make_call\<close>: a failed request
  raises its own exception.\<close>

fun response_json :: "reply \<Rightarrow> exn + json" where
  "response_json NetError = Inl ConnectionError"
| "response_json (Reply status None) = Inl JSONDecodeError"
| "response_json (Reply status (Some j)) = Inr j"

fun dispatch_lookups ::
  "'w genius \<Rightarrow> song list \<Rightarrow> 'w handler \<Rightarrow> (song \<times> reply) list \<times> 'w handler" where
  "dispatch_lookups gen [] h = ([], h)"
| "dispatch_lookups gen (t # ts) h =
     (let rw = gen (world h) (name t, artist t);
          rest = dispatch_lookups gen ts
                   (h\<lparr>world := snd rw, lookups := lookups h @ [(name t, artist t)]\<rparr>)
      in ((t, fst rw) # fst rest, snd rest))"

definition unidentified :: json where
  "unidentified = JStr ''unidentified''"

text \<open>The \<^verbatim>\<open>try\<close> block of the second loop.\<close>

definition lookup_language :: "reply \<Rightarrow> exn + json" where
  "lookup_language rep =
     then_exn (then_exn (then_exn (then_exn (then_exn (response_json rep)
       (\<lambda>j. py_getitem j ''response'')) (\<lambda>j. py_getitem j ''hits'')) py_getitem0)
       (\<lambda>j. py_getitem j ''result'')) (\<lambda>j. py_getitem j ''language'')"

text \<open>Only \<^verbatim>\<open>KeyError\<close> and \<^verbatim>\<open>IndexError\<close> are caught.\<close>

definition resolve_track :: "song \<times> reply \<Rightarrow> exn + song" where
  "resolve_track tr =
     (case lookup_language (snd tr) of
        Inr v \<Rightarrow> Inr ((fst tr)\<lparr>lan := (if v = JNull then unidentified else v)\<rparr>)
      | Inl KeyError \<Rightarrow> Inr ((fst tr)\<lparr>lan := unidentified\<rparr>)
      | Inl IndexError \<Rightarrow> Inr ((fst tr)\<lparr>lan := unidentified\<rparr>)
      | Inl e \<Rightarrow> Inl e)"

definition get_songs_and_lan ::
  "'w api \<Rightarrow> 'w genius \<Rightarrow> 'w handler \<Rightarrow> (exn + song list) \<times> 'w handler" where
  "get_songs_and_lan api gen h =
     (let r = get_songs api h
      in case fst r of
           Inl e \<Rightarrow> (Inl e, snd r)
         | Inr tracks \<Rightarrow>
             (let d = dispatch_lookups gen tracks (snd r)
              in (map_exn resolve_track (fst d), snd d)))"

section \<open>SpotifyHandler.empty_playlist, update_playlist, create_playlist\<close>

definition track_uri :: "json \<Rightarrow> exn + json" where
  "track_uri track =
     then_exn (then_exn (py_getitem track ''track'') (\<lambda>t. py_getitem t ''uri''))
       (\<lambda>u. Inr (JObj [(''uri'', u)]))"

text \<open>One round of the loop of \<^verbatim>\<open>empty_playlist\<close>: the arguments of the \<^verbatim>\<open>delete\<close> call
  are evaluated first, so the \<^verbatim>\<open>get\<close> with \<^verbatim>\<open>limit\<close> 50 precedes it.\<close>

definition empty_playlist_round ::
  "'w api \<Rightarrow> json \<Rightarrow> nat \<Rightarrow> 'w handler \<Rightarrow> (exn + unit option) \<times> 'w handler" where
  "empty_playlist_round api pid i h =
     (let r = make_call api h GET (PlaylistTracks pid) None None (Some [(''limit'', 50)])
      in case then_exn (then_exn (then_exn (fst r) (\<lambda>j. py_getitem j ''items'')) py_iter)
                (map_exn track_uri) of
           Inl e \<Rightarrow> (Inl e, snd r)
         | Inr tracks \<Rightarrow>
             (let d = make_call api (snd r) DELETE (PlaylistTracks pid) None
                        (Some (JObj [(''tracks'', JList tracks)])) None
              in (then_exn (fst d) (\<lambda>j. Inr None), snd d)))"

text \<open>The bound of the loop is the argument of \<^verbatim>\<open>range\<close>: it is evaluated once, before the
  first round.\<close>

definition empty_playlist ::
  "'w api \<Rightarrow> 'w handler \<Rightarrow> json \<Rightarrow> (exn + unit option) \<times> 'w handler" where
  "empty_playlist api h pid =
     (let r = make_call api h GET (PlaylistTracks pid) None None None
      in case then_exn (then_exn (fst r) (\<lambda>j. py_getitem j ''total'')) py_num of
           Inl e \<Rightarrow> (Inl e, snd r)
         | Inr tot \<Rightarrow> for_loop (empty_playlist_round api pid) (py_range (ceil_div tot 50)) (snd r))"

definition update_playlist_round ::
  "'w api \<Rightarrow> json \<Rightarrow> json list \<Rightarrow> nat \<Rightarrow> 'w handler \<Rightarrow> (exn + unit option) \<times> 'w handler" where
  "update_playlist_round api pid songs i h =
     (let r = make_call api h POST (PlaylistTracks pid) None
                (Some (JObj [(''uris'', JList (take 90 (drop (i * 90) songs)))])) None
      in (then_exn (fst r) (\<lambda>j. Inr None), snd r))"

definition update_playlist ::
  "'w api \<Rightarrow> 'w handler \<Rightarrow> json \<Rightarrow> json list \<Rightarrow> (exn + unit option) \<times> 'w handler" where
  "update_playlist api h pid songs =
     for_loop (update_playlist_round api pid songs)
       (py_range (ceil_div (int (length songs)) 90)) h"

text \<open>\<^verbatim>\<open>v.get("id")\<close>: only a dict has the method.\<close>

fun py_get :: "json \<Rightarrow> string \<Rightarrow> exn + json" where
  "py_get (JObj kvs) k = (case map_of kvs k of None \<Rightarrow> Inr JNull | Some v \<Rightarrow> Inr v)"
| "py_get _ k = Inl AttributeError"

text \<open>\<^verbatim>\<open>v.status_code\<close> on what \<^verbatim>\<open>make_call\<close> returned, a parsed JSON value: none of
  dict, list, str, int, bool and \<^verbatim>\<open>None\<close> has the attribute.\<close>

fun py_status_code :: "json \<Rightarrow> exn + int" where
  "py_status_code j = Inl AttributeError"

definition create_playlist_round ::
  "'w api \<Rightarrow> json \<Rightarrow> json \<Rightarrow> json list \<Rightarrow> nat \<Rightarrow> 'w handler \<Rightarrow> (exn + bool option) \<times> 'w handler" where
  "create_playlist_round api nm pid songs i h =
     (let r = make_call api h POST (PlaylistTracks pid) (Some (api_headers h))
                (Some (JObj [(''uris'', JList (take 90 (drop (i * 90) songs))),
                             (''position'', JInt (int i * 90))])) None
      in case then_exn (fst r) py_status_code of
           Inl e \<Rightarrow> (Inl e, snd r)
         | Inr code \<Rightarrow>
             if code \<noteq> 200
             then (Inr (Some False), (snd r)\<lparr>logs := logs (snd r) @ [LogAddFailed nm]\<rparr>)
             else (Inr None, snd r))"

definition create_playlist ::
  "'w api \<Rightarrow> 'w handler \<Rightarrow> json \<Rightarrow> json list \<Rightarrow> (exn + bool) \<times> 'w handler" where
  "create_playlist api h nm songs =
     (case user_id h of
        None \<Rightarrow> (Inl AttributeError, h)
      | Some u \<Rightarrow>
          (let r = make_call api h POST (UserPlaylists u) None
                     (Some (JObj [(''name'', nm), (''public'', JBool False)])) None
           in case then_exn (fst r) (\<lambda>j. py_get j ''id'') of
                Inl e \<Rightarrow> (Inl e, snd r)
              | Inr pid \<Rightarrow>
                  if \<not> py_truthy pid
                  then (Inr False, (snd r)\<lparr>logs := logs (snd r) @ [LogCreateFailed nm]\<rparr>)
                  else
                    (let l = for_loop (create_playlist_round api nm pid songs)
                               (py_range (ceil_div (int (length songs)) 90)) (snd r)
                     in case fst l of
                          Inl e \<Rightarrow> (Inl e, snd l)
                        | Inr (Some b) \<Rightarrow> (Inr b, snd l)
                        | Inr None \<Rightarrow> (Inr True, snd l))))"

section \<open>SpotifyHandler.authorize\<close>

text \<open>The token endpoint answers the client credentials and the authorization code (the
  module-level \<^verbatim>\<open>code\<close>, a string or \<^verbatim>\<open>None\<close>).\<close>

type_synonym 'w token_api = "'w \<Rightarrow> string \<times> string \<times> json \<Rightarrow> reply \<times> 'w"

text \<open>The \<^verbatim>\<open>try\<close> block: the post and \<^verbatim>\<open>response.json()["access_token"]\<close>.\<close>

definition access_token :: "reply \<Rightarrow> exn + json" where
  "access_token rep = then_exn (response_json rep) (\<lambda>j. py_getitem j ''access_token'')"

text \<open>After the \<^verbatim>\<open>try\<close>, \<^verbatim>\<open>"Bearer " + self.token\<close> needs a string, and
  \<^verbatim>\<open>get_user_id\<close> is called unguarded.\<close>

definition authorize ::
  "'w api \<Rightarrow> 'w token_api \<Rightarrow> 'w handler \<Rightarrow> json \<Rightarrow> (exn + json) \<times> 'w handler" where
  "authorize api tok h code =
     (let rw = tok (world h) (client_id h, secret_key h, code);
          h1 = h\<lparr>world := snd rw\<rparr>
      in case access_token (fst rw) of
           Inl e \<Rightarrow> (Inr JNull, h1\<lparr>logs := logs h1 @ [LogTokenFailed]\<rparr>)
         | Inr t \<Rightarrow>
             (case t of
                JStr s \<Rightarrow>
                  (let h2 = h1\<lparr>token := t, api_headers := [(''Authorization'', ''Bearer '' @ s)]\<rparr>;
                       r = get_user_id api h2
                   in case fst r of
                        Inl e \<Rightarrow> (Inl e, snd r)
                      | Inr u \<Rightarrow> (Inr t, (snd r)\<lparr>user_id := Some u\<rparr>))
              | _ \<Rightarrow> (Inl TypeError, h1\<lparr>token := t\<rparr>)))"

section \<open>process\<close>

subsection \<open>Dictionaries keyed by JSON values\<close>

text \<open>Lists and dicts are unhashable. \<^verbatim>\<open>True\<close> and \<^verbatim>\<open>1\<close> (and \<^verbatim>\<open>False\<close> and \<^verbatim>\<open>0\<close>)
  are equal and hash alike, so they are one key.\<close>

fun py_hashable :: "json \<Rightarrow> bool" where
  "py_hashable (JList xs) = False"
| "py_hashable (JObj kvs) = False"
| "py_hashable _ = True"

fun py_key :: "json \<Rightarrow> json" where
  "py_key (JBool b) = JInt (if b then 1 else 0)"
| "py_key j = j"

definition py_hash :: "json \<Rightarrow> exn + json" where
  "py_hash j = (if py_hashable j then Inr j else Inl TypeError)"

text \<open>\<^verbatim>\<open>set(...)\<close> of a sequence: every element is hashed, and of equal elements the first
  stays. The order in which the set is then iterated is not fixed by the language: it is the
  parameter \<open>set_order\<close> of \<open>process\<close>.\<close>

definition set_add :: "json \<Rightarrow> json list \<Rightarrow> json list" where
  "set_add x s = (if py_key x \<in> set (map py_key s) then s else s @ [x])"

definition py_set :: "json list \<Rightarrow> exn + json list" where
  "py_set xs = then_exn (map_exn py_hash xs) (\<lambda>ys. Inr (fold set_add ys []))"

text \<open>A dict keeps its keys in insertion order.\<close>

definition dict_get :: "(json \<times> 'v) list \<Rightarrow> json \<Rightarrow> 'v option" where
  "dict_get d k = map_of (map (\<lambda>kv. (py_key (fst kv), snd kv)) d) (py_key k)"

definition dict_set :: "(json \<times> 'v) list \<Rightarrow> json \<Rightarrow> 'v \<Rightarrow> (json \<times> 'v) list" where
  "dict_set d k v =
     (if py_key k \<in> set (map (\<lambda>kv. py_key (fst kv)) d)
      then map (\<lambda>kv. if py_key (fst kv) = py_key k then (fst kv, v) else kv) d
      else d @ [(k, v)])"

text \<open>\<^verbatim>\<open>lan_songs_dict[song.lan].append(song.uri)\<close>\<close>

definition dict_append ::
  "(json \<times> json list) list \<Rightarrow> json \<Rightarrow> json \<Rightarrow> exn + (json \<times> json list) list" where
  "dict_append d k v =
     (case dict_get d k of
        None \<Rightarrow> Inl KeyError
      | Some vs \<Rightarrow> Inr (dict_set d k (vs @ [v])))"

subsection \<open>Grouping by language\<close>

fun group_loop :: "(json \<times> json list) list \<Rightarrow> song list \<Rightarrow> exn + (json \<times> json list) list" where
  "group_loop d [] = Inr d"
| "group_loop d (s # ss) = then_exn (dict_append d (lan s) (uri s)) (\<lambda>d'. group_loop d' ss)"

definition lan_songs_dict ::
  "(json list \<Rightarrow> json list) \<Rightarrow> song list \<Rightarrow> exn + (json \<times> json list) list" where
  "lan_songs_dict set_order all_songs =
     then_exn (py_set (map lan all_songs))
       (\<lambda>lans. group_loop (map (\<lambda>l. (l, [])) (set_order lans)) all_songs)"

fun playlist_names_loop :: "(json \<times> json) list \<Rightarrow> playlist list \<Rightarrow> exn + (json \<times> json) list" where
  "playlist_names_loop d [] = Inr d"
| "playlist_names_loop d (p # ps) =
     then_exn (py_hash (pl_name p)) (\<lambda>k. playlist_names_loop (dict_set d k (playlist_id p)) ps)"

definition playlist_names :: "playlist list \<Rightarrow> exn + (json \<times> json) list" where
  "playlist_names playlists = playlist_names_loop [] playlists"

subsection \<open>The run\<close>

text \<open>The body of the last loop of \<^verbatim>\<open>process\<close>; the result of \<^verbatim>\<open>create_playlist\<close> is
  dropped.\<close>

definition populate ::
  "'w api \<Rightarrow> (json \<times> json) list \<Rightarrow> json \<times> json list \<Rightarrow> 'w handler \<Rightarrow>
   (exn + unit option) \<times> 'w handler" where
  "populate api names entry h =
     (case dict_get names (fst entry) of
        Some pid \<Rightarrow>
          (let e = empty_playlist api h pid
           in case fst e of
                Inl x \<Rightarrow> (Inl x, snd e)
              | Inr _ \<Rightarrow> update_playlist api (snd e) pid (snd entry))
      | None \<Rightarrow>
          (let c = create_playlist api h (fst entry) (snd entry)
           in (then_exn (fst c) (\<lambda>b. Inr None), snd c)))"

definition new_handler :: "string \<Rightarrow> string \<Rightarrow> 'w \<Rightarrow> 'w handler" where
  "new_handler cid key w =
     \<lparr>client_id = cid, secret_key = key, token = JStr [], api_headers = [], user_id = None,
      world = w, reqs = [], replies = [], lookups = [], logs = []\<rparr>"

definition log_info :: "string \<Rightarrow> 'w handler \<Rightarrow> 'w handler" where
  "log_info msg h = h\<lparr>logs := logs h @ [LogInfo msg]\<rparr>"

text \<open>\<^verbatim>\<open>process\<close> returns \<^verbatim>\<open>False\<close> when authorization gave a falsy token and \<^verbatim>\<open>None\<close>
  at its end; it has no handler of its own, so what a step raises leaves it.\<close>

definition process ::
  "'w api \<Rightarrow> 'w token_api \<Rightarrow> 'w genius \<Rightarrow> (json list \<Rightarrow> json list) \<Rightarrow>
   string \<Rightarrow> string \<Rightarrow> json \<Rightarrow> 'w \<Rightarrow> (exn + json) \<times> 'w handler" where
  "process api tok gen set_order cid key code w =
     (let a = authorize api tok (log_info ''Process started'' (new_handler cid key w)) code
      in case fst a of
           Inl e \<Rightarrow> (Inl e, snd a)
         | Inr t \<Rightarrow>
             if \<not> py_truthy t then (Inr (JBool False), snd a)
             else
               (let s = get_songs_and_lan api gen (log_info ''Authorized correctly'' (snd a))
                in case fst s of
                     Inl e \<Rightarrow> (Inl e, snd s)
                   | Inr all_songs \<Rightarrow>
                       (case lan_songs_dict set_order all_songs of
                          Inl e \<Rightarrow> (Inl e, log_info ''Collecting users's songs and playlists'' (snd s))
                        | Inr d \<Rightarrow>
                            (let p = get_playlists api
                                       (log_info ''Collecting users's songs and playlists'' (snd s))
                             in case then_exn (fst p) playlist_names of
                                  Inl e \<Rightarrow> (Inl e, snd p)
                                | Inr names \<Rightarrow>
                                    (let l = for_loop (populate api names) d
                                               (log_info ''Creating and populating playlists...'' (snd p))
                                     in case fst l of
                                          Inl e \<Rightarrow> (Inl e, snd l)
                                        | Inr _ \<Rightarrow> (Inr JNull, log_info ''Process finished'' (snd l)))))))"

section \<open>A scripted remote side\<close>

text \<open>For concrete runs the remote side is a script: the list of the replies still to be
  given, one per request, whatever the request; past its end every request fails.\<close>

fun script_pop :: "reply list \<Rightarrow> reply \<times> reply list" where
  "script_pop [] = (NetError, [])"
| "script_pop (x # xs) = (x, xs)"

definition script_api :: "reply list api" where
  "script_api w r = script_pop w"

definition script_token :: "reply list token_api" where
  "script_token w c = script_pop w"

definition script_genius :: "reply list genius" where
  "script_genius w q = script_pop w"

definition ok :: "json \<Rightarrow> reply" where
  "ok j = Reply 200 (Some j)"

definition h0 :: "'w \<Rightarrow> 'w handler" where
  "h0 w = \<lparr>client_id = ''id'', secret_key = ''key'', token = JStr ''t'',
           api_headers = [(''Authorization'', ''Bearer t'')], user_id = Some (JStr ''u''),
           world = w, reqs = [], replies = [], lookups = [], logs = []\<rparr>"

text \<open>A listing of 120 items whose second page fails.\<close>

definition demo_listing :: "reply list" where
  "demo_listing =
     [ok (JObj [(''total'', JInt 120)]),
      Reply 200 (Some (JObj [(''items'', JList [JStr ''a'', JStr ''b''])])),
      NetError,
      Reply 200 (Some (JObj [(''items'', JList [JStr ''c''])]))]"

section \<open>Requests and inputs named in the properties\<close>



text \<open>The requests of \<^verbatim>\<open>empty_playlist\<close>: the one that learns the total, the one that fetches
  up to 50 members, and the removal of given tracks.\<close>

definition total_request :: "(string \<times> string) list \<Rightarrow> json \<Rightarrow> request" where
  "total_request own pid = call_request own GET (PlaylistTracks pid) None None None"

definition limit_request :: "(string \<times> string) list \<Rightarrow> json \<Rightarrow> request" where
  "limit_request own pid =
     call_request own GET (PlaylistTracks pid) None None (Some [(''limit'', 50)])"

definition remove_request :: "(string \<times> string) list \<Rightarrow> json \<Rightarrow> json list \<Rightarrow> request" where
  "remove_request own pid tracks =
     call_request own DELETE (PlaylistTracks pid) None (Some (JObj [(''tracks'', JList tracks)])) None"

text \<open>The total that a reply reports, and the member uris that a reply lists, each as
  \<^verbatim>\<open>{"uri": ...}\<close>.\<close>

definition reported_total :: "reply \<Rightarrow> exn + int" where
  "reported_total rep = then_exn (then_exn (reply_json rep) (\<lambda>j. py_getitem j ''total'')) py_num"

definition member_uris :: "reply \<Rightarrow> exn + json list" where
  "member_uris rep =
     then_exn (then_exn (then_exn (reply_json rep) (\<lambda>j. py_getitem j ''items'')) py_iter)
       (map_exn track_uri)"

text \<open>A sequence of exchanges that consists of rounds: a fetch of up to 50 members, then a
  removal of exactly the uris that the fetch was answered with.\<close>

fun removal_rounds :: "(string \<times> string) list \<Rightarrow> json \<Rightarrow> (request \<times> reply) list \<Rightarrow> bool" where
  "removal_rounds own pid [] = True"
| "removal_rounds own pid [x] = False"
| "removal_rounds own pid (g # d # xs) =
     (fst g = limit_request own pid
      \<and> (case member_uris (snd g) of Inl e \<Rightarrow> False | Inr us \<Rightarrow> fst d = remove_request own pid us)
      \<and> removal_rounds own pid xs)"

text \<open>The request that creates a playlist and the append request of round \<open>i\<close> of
  \<^verbatim>\<open>create_playlist\<close>.\<close>

definition create_request :: "(string \<times> string) list \<Rightarrow> json \<Rightarrow> json \<Rightarrow> request" where
  "create_request own u nm =
     call_request own POST (UserPlaylists u) None
       (Some (JObj [(''name'', nm), (''public'', JBool False)])) None"

definition position_request :: "(string \<times> string) list \<Rightarrow> json \<Rightarrow> json list \<Rightarrow> nat \<Rightarrow> request" where
  "position_request own pid songs i =
     call_request own POST (PlaylistTracks pid) (Some own)
       (Some (JObj [(''uris'', JList (take 90 (drop (i * 90) songs))),
                    (''position'', JInt (int i * 90))])) None"

text \<open>A playlist of 100 tracks, emptied in two rounds.\<close>

definition member :: "string \<Rightarrow> json" where
  "member u = JObj [(''track'', JObj [(''uri'', JStr u)])]"

definition demo_removal :: "reply list" where
  "demo_removal =
     [ok (JObj [(''total'', JInt 100)]),
      ok (JObj [(''items'', JList [member ''a'']), (''total'', JInt 100)]),
      ok (JObj [(''snapshot_id'', JStr ''s1'')]),
      ok (JObj [(''items'', JList [member ''b'']), (''total'', JInt 50)]),
      ok (JObj [(''snapshot_id'', JStr ''s2'')])]"

text \<open>The creation succeeds and the append is answered with status 200.\<close>

definition demo_create :: "reply list" where
  "demo_create =
     [ok (JObj [(''id'', JStr ''p1'')]),
      ok (JObj [(''snapshot_id'', JStr ''s1'')])]"

text \<open>Two saved tracks; the lookup of the first has no hits, that of the second finds a
  language. In \<open>demo_enrich_fails\<close> the lookup of the only track fails.\<close>

definition saved :: "string \<Rightarrow> string \<Rightarrow> string \<Rightarrow> json" where
  "saved n a u =
     JObj [(''track'', JObj [(''name'', JStr n), (''artists'', JList [JObj [(''name'', JStr a)]]),
                             (''uri'', JStr u)])]"

definition hit :: "json \<Rightarrow> json" where
  "hit l = JObj [(''response'', JObj [(''hits'', JList [JObj [(''result'', JObj [(''language'', l)])]])])]"

definition demo_enrich :: "reply list" where
  "demo_enrich =
     [ok (JObj [(''total'', JInt 2)]),
      ok (JObj [(''items'', JList [saved ''n1'' ''a1'' ''u1'', saved ''n2'' ''a2'' ''u2''])]),
      ok (JObj [(''response'', JObj [(''hits'', JList [])])]),
      ok (hit (JStr ''en''))]"

definition demo_enrich_fails :: "reply list" where
  "demo_enrich_fails =
     [ok (JObj [(''total'', JInt 1)]),
      ok (JObj [(''items'', JList [saved ''n1'' ''a1'' ''u1''])]),
      NetError]"

text \<open>The token exchange is refused.\<close>

definition demo_refused :: "reply list" where
  "demo_refused = [Reply 400 (Some (JObj [(''error'', JStr ''invalid_grant'')]))]"

text \<open>The token exchange and the user lookup succeed; the saved-tracks listing is answered
  with an error body, which has no total.\<close>

definition demo_no_total :: "reply list" where
  "demo_no_total =
     [ok (JObj [(''access_token'', JStr ''t'')]),
      ok (JObj [(''id'', JStr ''u'')]),
      Reply 401 (Some (JObj [(''error'', JObj [(''status'', JInt 401)])]))]"



text \<open>Three enriched tracks in two languages.\<close>

definition demo_songs :: "song list" where
  "demo_songs =
     [\<lparr>name = JStr ''n1'', artist = JStr ''a1'', lan = JStr ''en'', uri = JStr ''u1''\<rparr>,
      \<lparr>name = JStr ''n2'', artist = JStr ''a2'', lan = JStr ''pl'', uri = JStr ''u2''\<rparr>,
      \<lparr>name = JStr ''n3'', artist = JStr ''a3'', lan = JStr ''en'', uri = JStr ''u3''\<rparr>]"


section \<open>Properties of make_call and get_resource\<close>

lemma make_call_fst:
  "fst (make_call api h m ep hs dat ps) = reply_json (fst (api (world h) (call_request (api_headers h) m ep hs dat ps)))"
  by (simp add: make_call_def Let_def)

lemma make_call_reqs:
  "reqs (snd (make_call api h m ep hs dat ps)) = reqs h @ [call_request (api_headers h) m ep hs dat ps]"
  by (simp add: make_call_def Let_def)

lemma make_call_replies:
  "replies (snd (make_call api h m ep hs dat ps)) =
     replies h @ [fst (api (world h) (call_request (api_headers h) m ep hs dat ps))]"
  by (simp add: make_call_def Let_def)

lemma make_call_world:
  "world (snd (make_call api h m ep hs dat ps)) = snd (api (world h) (call_request (api_headers h) m ep hs dat ps))"
  by (simp add: make_call_def Let_def)

lemma make_call_logs:
  "logs (snd (make_call api h m ep hs dat ps)) = logs h @ call_logs (call_request (api_headers h) m ep hs dat ps) (fst (api (world h) (call_request (api_headers h) m ep hs dat ps)))"
  by (simp add: make_call_def Let_def)

lemma make_call_fields:
  "api_headers (snd (make_call api h m ep hs dat ps)) = api_headers h"
  "token (snd (make_call api h m ep hs dat ps)) = token h"
  "user_id (snd (make_call api h m ep hs dat ps)) = user_id h"
  by (simp_all add: make_call_def Let_def)

lemma page_fst:
  "fst (get_resource_page api ep hs dat page st) =
     fst st @ page_items (fst (api (world (snd st)) (page_request (api_headers (snd st)) ep hs dat page)))"
  by (simp add: get_resource_page_def page_items_def page_request_def Let_def make_call_fst split: sum.splits)

lemma page_reqs:
  "reqs (snd (get_resource_page api ep hs dat page st)) =
     reqs (snd st) @ [page_request (api_headers (snd st)) ep hs dat page]"
  by (simp add: get_resource_page_def page_request_def Let_def make_call_reqs split: sum.splits)

lemma page_world:
  "world (snd (get_resource_page api ep hs dat page st)) =
     snd (api (world (snd st)) (page_request (api_headers (snd st)) ep hs dat page))"
  by (simp add: get_resource_page_def page_request_def Let_def make_call_world split: sum.splits)

lemma page_headers:
  "api_headers (snd (get_resource_page api ep hs dat page st)) = api_headers (snd st)"
  by (simp add: get_resource_page_def Let_def make_call_fields split: sum.splits)

lemma pages_reqs:
  "reqs (snd (fold (get_resource_page api ep hs dat) ps st)) =
     reqs (snd st) @ map (page_request (api_headers (snd st)) ep hs dat) ps"
  by (induction ps arbitrary: st) (simp_all add: page_reqs page_headers)

lemma pages_items:
  "fst (fold (get_resource_page api ep hs dat) ps st) =
     fst st @ concat (map page_items
       (replies_of api (world (snd st)) (map (page_request (api_headers (snd st)) ep hs dat) ps)))"
  by (induction ps arbitrary: st) (simp_all add: page_fst page_world page_headers)

lemma round_div50_nonneg: "0 \<le> N \<Longrightarrow> 0 \<le> round_div50 N"
  by (simp add: round_div50_def Let_def pos_imp_zdiv_nonneg_iff)

lemma page_count: "0 \<le> N \<Longrightarrow> (if round_div50 N = 0 then 1 else round_div50 N) = max 1 (round_div50 N)"
  using round_div50_nonneg [of N] by auto

lemma page_request_inj: "inj (page_request own ep hs dat)"
  by (rule injI) (simp add: page_request_def call_request_def)

lemma page_failed_items: "page_failed rep \<Longrightarrow> page_items rep = []"
  by (simp add: page_failed_def page_items_def split: sum.splits)

lemma concat_items_filter:
  "concat (map page_items (filter (\<lambda>rep. \<not> page_failed rep) reps)) = concat (map page_items reps)"
  by (induction reps) (simp_all add: page_failed_items)

lemma page_logs:
  "logs (snd (get_resource_page api ep hs dat page st)) =
     logs (snd st)
     @ call_logs (page_request (api_headers (snd st)) ep hs dat page)
         (fst (api (world (snd st)) (page_request (api_headers (snd st)) ep hs dat page)))
     @ (if page_failed (fst (api (world (snd st)) (page_request (api_headers (snd st)) ep hs dat page)))
        then [LogPageFailed ep page] else [])"
  by (simp add: get_resource_page_def page_failed_def page_request_def Let_def make_call_fst make_call_logs
      split: sum.splits)

lemma pages_logs_mono:
  "set (logs (snd st)) \<subseteq> set (logs (snd (fold (get_resource_page api ep hs dat) ps st)))"
proof (induction ps arbitrary: st)
  case Nil
  show ?case by simp
next
  case (Cons p ps)
  have "set (logs (snd st)) \<subseteq> set (logs (snd (get_resource_page api ep hs dat p st)))"
    by (simp add: page_logs)
  also have "\<dots> \<subseteq> set (logs (snd (fold (get_resource_page api ep hs dat) ps
                        (get_resource_page api ep hs dat p st))))"
    by (rule Cons.IH)
  finally show ?case by simp
qed

lemma pages_failed_logged:
  "n < length ps \<Longrightarrow>
   page_failed (replies_of api (world (snd st)) (map (page_request (api_headers (snd st)) ep hs dat) ps) ! n) \<Longrightarrow>
   LogPageFailed ep (ps ! n) \<in> set (logs (snd (fold (get_resource_page api ep hs dat) ps st)))"
proof (induction ps arbitrary: st n)
  case Nil
  then show ?case by simp
next
  case (Cons p ps)
  let ?st1 = "get_resource_page api ep hs dat p st"
  show ?case
  proof (cases n)
    case 0
    with Cons.prems have "LogPageFailed ep p \<in> set (logs (snd ?st1))"
      by (simp add: page_logs)
    with pages_logs_mono [of ?st1 api ep hs dat ps] 0 show ?thesis by auto
  next
    case (Suc m)
    with Cons.prems have "m < length ps" by simp
    moreover from Cons.prems Suc
    have "page_failed (replies_of api (world (snd ?st1))
            (map (page_request (api_headers (snd ?st1)) ep hs dat) ps) ! m)"
      by (simp add: page_world page_headers)
    ultimately have "LogPageFailed ep (ps ! m) \<in> set (logs (snd (fold (get_resource_page api ep hs dat) ps ?st1)))"
      by (rule Cons.IH)
    with Suc show ?thesis by simp
  qed
qed

text \<open>A page answered with an \<^verbatim>\<open>items\<close> array contributes that array; a page whose request
  raised or whose body is not JSON has failed.\<close>

lemma page_items_array:
  "map_of kvs ''items'' = Some (JList xs) \<Longrightarrow> page_items (Reply st (Some (JObj kvs))) = xs"
  by (simp add: page_items_def then_exn_def)

lemma page_failed_cases: "page_failed NetError \<and> page_failed (Reply st None)"
  by (simp add: page_failed_def then_exn_def)

lemma get_resource_run:
  assumes "fst (api (world h) (call_request (api_headers h) GET ep hs dat ps)) = Reply s (Some j)"
    and "py_getitem j ''total'' = Inr (JInt N)" and "0 \<le> N"
  shows "get_resource api h ep hs dat ps =
           (let st = fold (get_resource_page api ep hs dat) [0 ..< nat (max 1 (round_div50 N))]
                       ([], snd (make_call api h GET ep hs dat ps))
            in (Inr (fst st), snd st))"
  using assms page_count [of N]
  by (simp add: get_resource_def Let_def make_call_fst then_exn_def py_range_def)

text \<open>
  Claim C1. When the remote endpoint reports a total item count \<open>N\<close>, \<^verbatim>\<open>get_resource\<close>
  issues, after the request that learns the total, \<open>max 1 (round (N/50))\<close> page requests, the
  one of index \<open>i\<close> with \<open>offset = i * 50\<close> and \<open>limit = 50\<close>, and returns the concatenation
  of the items of the pages' replies in page order.
\<close>

theorem get_resource_page_requests:
  assumes "fst (api (world h) (call_request (api_headers h) GET ep hs dat ps)) = Reply s (Some j)"
    and "py_getitem j ''total'' = Inr (JInt N)" and "0 \<le> N"
  shows "reqs (snd (get_resource api h ep hs dat ps)) =
           reqs h @ call_request (api_headers h) GET ep hs dat ps
             # map (page_request (api_headers h) ep hs dat) [0 ..< nat (max 1 (round_div50 N))]
         \<and> (\<forall>i < nat (max 1 (round_div50 N)).
              rparams (page_request (api_headers h) ep hs dat i) =
                Some [(''offset'', int i * 50), (''limit'', 50)])
         \<and> fst (get_resource api h ep hs dat ps) =
             Inr (concat (map page_items
               (replies_of api (snd (api (world h) (call_request (api_headers h) GET ep hs dat ps)))
                 (map (page_request (api_headers h) ep hs dat) [0 ..< nat (max 1 (round_div50 N))]))))"
proof -
  have run: "get_resource api h ep hs dat ps =
           (let st = fold (get_resource_page api ep hs dat) [0 ..< nat (max 1 (round_div50 N))]
                       ([], snd (make_call api h GET ep hs dat ps))
            in (Inr (fst st), snd st))"
    using assms by (rule get_resource_run)
  show ?thesis
    by (simp add: run Let_def pages_reqs pages_items make_call_reqs make_call_world
        make_call_fields) (simp add: page_request_def call_request_def)
qed

lemma rd120: "round_div50 120 = 2"
  by (simp add: round_div50_def Let_def)

lemma upt2: "[0 ..< nat (max 1 (round_div50 120))] = [0, Suc 0]"
  by (simp add: round_div50_def Let_def upt_rec)

theorem get_resource_page_requests_witness:
  "reqs (snd (get_resource script_api (h0 demo_listing) MeTracks None None None)) =
     [call_request [(''Authorization'', ''Bearer t'')] GET MeTracks None None None,
      page_request [(''Authorization'', ''Bearer t'')] MeTracks None None 0,
      page_request [(''Authorization'', ''Bearer t'')] MeTracks None None 1]
   \<and> fst (get_resource script_api (h0 demo_listing) MeTracks None None None) =
       Inr [JStr ''a'', JStr ''b'']"
  using get_resource_page_requests [of script_api "h0 demo_listing" MeTracks None None None 200
      "JObj [(''total'', JInt 120)]" 120]
  by (simp add: h0_def demo_listing_def ok_def script_api_def upt2 page_items_def then_exn_def)

text \<open>
  Claim C7. When the call of a page request fails, \<^verbatim>\<open>get_resource\<close> logs the failure and
  skips the page: the result is the items of the pages that did not fail, every page is
  still requested, each once, and \<^verbatim>\<open>get_resource\<close> returns normally.
\<close>

theorem get_resource_failed_page_skipped:
  assumes "fst (api (world h) (call_request (api_headers h) GET ep hs dat ps)) = Reply s (Some j)"
    and "py_getitem j ''total'' = Inr (JInt N)" and "0 \<le> N"
    and "i < nat (max 1 (round_div50 N))"
    and "page_failed (replies_of api (snd (api (world h) (call_request (api_headers h) GET ep hs dat ps)))
           (map (page_request (api_headers h) ep hs dat) [0 ..< nat (max 1 (round_div50 N))]) ! i)"
  shows "fst (get_resource api h ep hs dat ps) =
           Inr (concat (map page_items (filter (\<lambda>rep. \<not> page_failed rep)
             (replies_of api (snd (api (world h) (call_request (api_headers h) GET ep hs dat ps)))
               (map (page_request (api_headers h) ep hs dat) [0 ..< nat (max 1 (round_div50 N))])))))
         \<and> reqs (snd (get_resource api h ep hs dat ps)) =
             reqs h @ call_request (api_headers h) GET ep hs dat ps
               # map (page_request (api_headers h) ep hs dat) [0 ..< nat (max 1 (round_div50 N))]
         \<and> distinct (map (page_request (api_headers h) ep hs dat) [0 ..< nat (max 1 (round_div50 N))])
         \<and> LogPageFailed ep i \<in> set (logs (snd (get_resource api h ep hs dat ps)))"
proof -
  let ?k = "nat (max 1 (round_div50 N))"
  let ?h1 = "snd (make_call api h GET ep hs dat ps)"
  have run: "get_resource api h ep hs dat ps =
           (let st = fold (get_resource_page api ep hs dat) [0 ..< ?k] ([], ?h1)
            in (Inr (fst st), snd st))"
    using assms(1-3) by (rule get_resource_run)
  have items: "fst (get_resource api h ep hs dat ps) =
           Inr (concat (map page_items (filter (\<lambda>rep. \<not> page_failed rep)
             (replies_of api (snd (api (world h) (call_request (api_headers h) GET ep hs dat ps)))
               (map (page_request (api_headers h) ep hs dat) [0 ..< ?k])))))"
    by (simp add: run Let_def pages_items make_call_world make_call_fields concat_items_filter)
  have trace: "reqs (snd (get_resource api h ep hs dat ps)) =
             reqs h @ call_request (api_headers h) GET ep hs dat ps
               # map (page_request (api_headers h) ep hs dat) [0 ..< ?k]"
    by (simp add: run Let_def pages_reqs make_call_reqs make_call_fields)
  have once: "distinct (map (page_request (api_headers h) ep hs dat) [0 ..< ?k])"
    by (simp add: distinct_map inj_on_subset [OF page_request_inj])
  have "i < length [0 ..< ?k]" using assms(4) by simp
  moreover have "page_failed (replies_of api (world (snd ([]::json list, ?h1)))
      (map (page_request (api_headers (snd ([]::json list, ?h1))) ep hs dat) [0 ..< ?k]) ! i)"
    using assms(5) by (simp add: make_call_world make_call_fields)
  ultimately have "LogPageFailed ep ([0 ..< ?k] ! i)
      \<in> set (logs (snd (fold (get_resource_page api ep hs dat) [0 ..< ?k] ([], ?h1))))"
    by (rule pages_failed_logged)
  then have logged: "LogPageFailed ep i \<in> set (logs (snd (get_resource api h ep hs dat ps)))"
    using assms(4) by (simp add: run Let_def)
  from items trace once logged show ?thesis by blast
qed

theorem get_resource_failed_page_skipped_witness:
  "fst (get_resource script_api (h0 demo_listing) MeTracks None None None) =
       Inr [JStr ''a'', JStr ''b'']
   \<and> LogPageFailed MeTracks 1
       \<in> set (logs (snd (get_resource script_api (h0 demo_listing) MeTracks None None None)))"
  using get_resource_failed_page_skipped [of script_api "h0 demo_listing" MeTracks None None None 200
      "JObj [(''total'', JInt 120)]" 120 1]
  by (simp add: h0_def demo_listing_def ok_def script_api_def rd120 upt_rec page_items_def page_failed_def
      then_exn_def)

section \<open>Properties of update_playlist\<close>

lemma ceil_div_90: "nat (ceil_div (int n) 90) = (n + 89) div 90"
proof -
  have "- ((- int n) div 90) = int ((n + 89) div 90)"
    by (simp add: zdiv_int)
  then show ?thesis by (simp add: ceil_div_def)
qed

lemma py_range_chunks: "py_range (ceil_div (int (length U)) 90) = [0 ..< (length U + 89) div 90]"
  by (simp add: py_range_def ceil_div_90)









section \<open>Properties of create_playlist\<close>

lemma create_round_raises:
  "\<exists>e. fst (create_playlist_round api nm pid songs i h) = Inl e"
  by (cases "fst (make_call api h POST (PlaylistTracks pid) (Some (api_headers h))
        (Some (JObj [(''uris'', JList (take 90 (drop (i * 90) songs))),
                     (''position'', JInt (int i * 90))])) None)")
     (simp_all add: create_playlist_round_def Let_def then_exn_def)

lemma create_round_reqs:
  "reqs (snd (create_playlist_round api nm pid songs i h)) =
     reqs h @ [position_request (api_headers h) pid songs i]"
  by (cases "fst (make_call api h POST (PlaylistTracks pid) (Some (api_headers h))
        (Some (JObj [(''uris'', JList (take 90 (drop (i * 90) songs))),
                     (''position'', JInt (int i * 90))])) None)")
     (simp_all add: create_playlist_round_def Let_def then_exn_def make_call_reqs position_request_def)

lemma for_loop_first_raises:
  assumes "fst (body x s) = Inl e"
  shows "for_loop body (x # xs) s = body x s"
  using assms by (simp add: Let_def)

text \<open>Whenever the creation yields an id and there is a uri to add, \<^verbatim>\<open>create_playlist\<close>
  raises after its first append request: it returns neither \<^verbatim>\<open>True\<close> nor \<^verbatim>\<open>False\<close>.\<close>

lemma create_playlist_raises:
  assumes "user_id h = Some u"
    and "then_exn (reply_json (fst (api (world h) (create_request (api_headers h) u nm))))
           (\<lambda>j. py_get j ''id'') = Inr pid"
    and "py_truthy pid" and "songs \<noteq> []"
  shows "(\<exists>e. fst (create_playlist api h nm songs) = Inl e)
         \<and> reqs (snd (create_playlist api h nm songs)) =
             reqs h @ [create_request (api_headers h) u nm,
                       position_request (api_headers h) pid songs 0]"
proof -
  let ?h1 = "snd (make_call api h POST (UserPlaylists u) None
                (Some (JObj [(''name'', nm), (''public'', JBool False)])) None)"
  have "0 < (length songs + 89) div 90" using assms(4) by (cases songs) simp_all
  then obtain ns where ns: "py_range (ceil_div (int (length songs)) 90) = 0 # ns"
    by (auto simp: py_range_chunks upt_conv_Cons)
  obtain e where e: "fst (create_playlist_round api nm pid songs 0 ?h1) = Inl e"
    using create_round_raises by blast
  have loop: "for_loop (create_playlist_round api nm pid songs) (0 # ns) ?h1 =
                create_playlist_round api nm pid songs 0 ?h1"
    using e by (rule for_loop_first_raises)
  have run: "create_playlist api h nm songs =
               (Inl e, snd (create_playlist_round api nm pid songs 0 ?h1))"
    using assms(1-3) e
    by (simp add: create_playlist_def Let_def make_call_fst create_request_def ns loop)
  show ?thesis
    by (simp add: run create_round_reqs make_call_reqs make_call_fields create_request_def)
qed

text \<open>
  Claim C2 (the code departs from it). The creation yields the id \<open>p1\<close> and the one append
  request is answered with status 200: the claim has \<^verbatim>\<open>create_playlist\<close> return \<^verbatim>\<open>True\<close>.
  The code reads \<^verbatim>\<open>status_code\<close> from the parsed body that \<^verbatim>\<open>make_call\<close> returns and
  raises \<^verbatim>\<open>AttributeError\<close>.
\<close>

theorem create_playlist_status_code_raises:
  "fst (create_playlist script_api (h0 demo_create) (JStr ''en'') [JStr ''spotify:track:1'']) =
     Inl AttributeError
   \<and> reqs (snd (create_playlist script_api (h0 demo_create) (JStr ''en'') [JStr ''spotify:track:1''])) =
       [create_request [(''Authorization'', ''Bearer t'')] (JStr ''u'') (JStr ''en''),
        position_request [(''Authorization'', ''Bearer t'')] (JStr ''p1'') [JStr ''spotify:track:1''] 0]"
  by (simp add: create_playlist_def create_playlist_round_def Let_def make_call_def script_api_def
      demo_create_def ok_def h0_def then_exn_def py_range_def ceil_div_def upt_rec
      create_request_def position_request_def)

section \<open>Properties of empty_playlist\<close>

lemma for_loop_None_Cons:
  assumes "fst (for_loop body (x # xs) s) = Inr None"
  shows "fst (body x s) = Inr None \<and> fst (for_loop body xs (snd (body x s))) = Inr None"
  using assms by (cases "fst (body x s) = Inr None") (simp_all add: Let_def)

lemma for_loop_Cons_None:
  assumes "fst (body x s) = Inr None"
  shows "for_loop body (x # xs) s = for_loop body xs (snd (body x s))"
  using assms by (simp add: Let_def)

lemma empty_round_exchange:
  assumes "fst (empty_playlist_round api pid i h) = Inr None"
  shows "\<exists>g d. reqs (snd (empty_playlist_round api pid i h)) = reqs h @ [fst g, fst d]
           \<and> replies (snd (empty_playlist_round api pid i h)) = replies h @ [snd g, snd d]
           \<and> removal_rounds (api_headers h) pid [g, d]"
proof -
  let ?g = "limit_request (api_headers h) pid"
  let ?r = "make_call api h GET (PlaylistTracks pid) None None (Some [(''limit'', 50)])"
  let ?rep = "fst (api (world h) ?g)"
  have m: "then_exn (then_exn (then_exn (fst ?r) (\<lambda>j. py_getitem j ''items'')) py_iter)
             (map_exn track_uri) = member_uris ?rep"
    by (simp add: member_uris_def make_call_fst limit_request_def)
  show ?thesis
  proof (cases "member_uris ?rep")
    case (Inl e)
    with assms m show ?thesis by (simp add: empty_playlist_round_def Let_def)
  next
    case (Inr us)
    let ?d = "remove_request (api_headers h) pid us"
    let ?h1 = "snd ?r"
    have run: "snd (empty_playlist_round api pid i h) =
                 snd (make_call api ?h1 DELETE (PlaylistTracks pid) None
                        (Some (JObj [(''tracks'', JList us)])) None)"
      using m Inr by (simp add: empty_playlist_round_def Let_def)
    have "reqs (snd (empty_playlist_round api pid i h)) = reqs h @ [?g, ?d]"
      by (simp add: run make_call_reqs make_call_fields limit_request_def remove_request_def)
    moreover have "replies (snd (empty_playlist_round api pid i h)) =
        replies h @ [?rep, fst (api (world ?h1) ?d)]"
      by (simp add: run make_call_replies make_call_fields limit_request_def remove_request_def)
    moreover have "removal_rounds (api_headers h) pid [(?g, ?rep), (?d, fst (api (world ?h1) ?d))]"
      using Inr by simp
    ultimately show ?thesis
      by (intro exI [of _ "(?g, ?rep)"] exI [of _ "(?d, fst (api (world ?h1) ?d))"]) simp
  qed
qed

lemma empty_round_headers:
  "api_headers (snd (empty_playlist_round api pid i h)) = api_headers h"
  by (simp add: empty_playlist_round_def Let_def make_call_fields split: sum.splits)

lemma empty_loop_exchanges:
  "fst (for_loop (empty_playlist_round api pid) ns h) = Inr None \<Longrightarrow>
   \<exists>xs. reqs (snd (for_loop (empty_playlist_round api pid) ns h)) = reqs h @ map fst xs
      \<and> replies (snd (for_loop (empty_playlist_round api pid) ns h)) = replies h @ map snd xs
      \<and> length xs = 2 * length ns
      \<and> removal_rounds (api_headers h) pid xs"
proof (induction ns arbitrary: h)
  case Nil
  show ?case by (intro exI [of _ "[]"]) simp
next
  case (Cons n ns)
  let ?h1 = "snd (empty_playlist_round api pid n h)"
  have one: "fst (empty_playlist_round api pid n h) = Inr None"
    using for_loop_None_Cons [OF Cons.prems] by simp
  have rest: "fst (for_loop (empty_playlist_round api pid) ns ?h1) = Inr None"
    using for_loop_None_Cons [OF Cons.prems] by simp
  from empty_round_exchange [OF one] obtain g d where
    gd: "reqs ?h1 = reqs h @ [fst g, fst d]" "replies ?h1 = replies h @ [snd g, snd d]"
        "removal_rounds (api_headers h) pid [g, d]"
    by blast
  from Cons.IH [OF rest] obtain xs where
    xs: "reqs (snd (for_loop (empty_playlist_round api pid) ns ?h1)) = reqs ?h1 @ map fst xs"
        "replies (snd (for_loop (empty_playlist_round api pid) ns ?h1)) = replies ?h1 @ map snd xs"
        "length xs = 2 * length ns"
        "removal_rounds (api_headers ?h1) pid xs"
    by blast
  have loop: "for_loop (empty_playlist_round api pid) (n # ns) h =
                for_loop (empty_playlist_round api pid) ns ?h1"
    using one by (rule for_loop_Cons_None)
  have "removal_rounds (api_headers h) pid (g # d # xs)"
    using gd(3) xs(4) by (simp add: empty_round_headers)
  then show ?case
    unfolding loop using gd(1,2) xs(1-3) by (intro exI [of _ "g # d # xs"]) simp
qed

lemma removal_rounds_no_total:
  "removal_rounds own pid xs \<Longrightarrow> total_request own pid \<notin> set (map fst xs)"
proof (induction own pid xs rule: removal_rounds.induct)
  case (1 own pid)
  show ?case by simp
next
  case (2 own pid x)
  then show ?case by simp
next
  case (3 own pid g d xs)
  then show ?case
    by (auto simp: total_request_def limit_request_def remove_request_def call_request_def
        split: sum.splits)
qed

text \<open>
  Claim C4, amended. \<^verbatim>\<open>empty_playlist\<close> queries the total once, at entry. When it returns
  normally it has then run \<open>ceil (total / 50)\<close> rounds, each a fetch of up to 50 current
  members (limit 50, no offset) followed by one removal request for exactly the uris of that
  fetch's reply; no round queries the total again.
\<close>

theorem empty_playlist_rounds:
  assumes "fst (empty_playlist api h pid) = Inr None"
  shows "\<exists>N xs. reported_total (fst (api (world h) (total_request (api_headers h) pid))) = Inr N
           \<and> reqs (snd (empty_playlist api h pid)) =
               reqs h @ total_request (api_headers h) pid # map fst xs
           \<and> replies (snd (empty_playlist api h pid)) =
               replies h @ fst (api (world h) (total_request (api_headers h) pid)) # map snd xs
           \<and> length xs = 2 * nat (ceil_div N 50)
           \<and> removal_rounds (api_headers h) pid xs
           \<and> total_request (api_headers h) pid \<notin> set (map fst xs)"
proof -
  let ?r = "make_call api h GET (PlaylistTracks pid) None None None"
  let ?rep = "fst (api (world h) (total_request (api_headers h) pid))"
  have t: "then_exn (then_exn (fst ?r) (\<lambda>j. py_getitem j ''total'')) py_num = reported_total ?rep"
    by (simp add: reported_total_def make_call_fst total_request_def)
  show ?thesis
  proof (cases "reported_total ?rep")
    case (Inl e)
    with assms t show ?thesis by (simp add: empty_playlist_def Let_def)
  next
    case (Inr N)
    have run: "empty_playlist api h pid =
                 for_loop (empty_playlist_round api pid) (py_range (ceil_div N 50)) (snd ?r)"
      using t Inr by (simp add: empty_playlist_def Let_def)
    with assms have "fst (for_loop (empty_playlist_round api pid) (py_range (ceil_div N 50)) (snd ?r)) = Inr None"
      by simp
    from empty_loop_exchanges [OF this] obtain xs where
      xs: "reqs (snd (empty_playlist api h pid)) = reqs (snd ?r) @ map fst xs"
          "replies (snd (empty_playlist api h pid)) = replies (snd ?r) @ map snd xs"
          "length xs = 2 * length (py_range (ceil_div N 50))"
          "removal_rounds (api_headers (snd ?r)) pid xs"
      unfolding run by blast
    have rr: "removal_rounds (api_headers h) pid xs"
      using xs(4) by (simp add: make_call_fields)
    have "reqs (snd (empty_playlist api h pid)) = reqs h @ total_request (api_headers h) pid # map fst xs"
      using xs(1) by (simp add: make_call_reqs total_request_def)
    moreover have "replies (snd (empty_playlist api h pid)) = replies h @ ?rep # map snd xs"
      using xs(2) by (simp add: make_call_replies total_request_def)
    moreover have "length xs = 2 * nat (ceil_div N 50)"
      using xs(3) by (simp add: py_range_def)
    ultimately show ?thesis
      using Inr rr removal_rounds_no_total [OF rr] by blast
  qed
qed

lemma demo_removal_run:
  "empty_playlist script_api (h0 demo_removal) (JStr ''p'') =
     (Inr None,
      (h0 [])\<lparr>reqs := [total_request [(''Authorization'', ''Bearer t'')] (JStr ''p''),
                 limit_request [(''Authorization'', ''Bearer t'')] (JStr ''p''),
                 remove_request [(''Authorization'', ''Bearer t'')] (JStr ''p'') [JObj [(''uri'', JStr ''a'')]],
                 limit_request [(''Authorization'', ''Bearer t'')] (JStr ''p''),
                 remove_request [(''Authorization'', ''Bearer t'')] (JStr ''p'') [JObj [(''uri'', JStr ''b'')]]],
        replies := demo_removal\<rparr>)"
  by (simp add: empty_playlist_def empty_playlist_round_def Let_def make_call_def script_api_def
      demo_removal_def ok_def member_def h0_def then_exn_def py_range_def ceil_div_def upt_rec
      total_request_def limit_request_def remove_request_def track_uri_def)

text \<open>The claim as stated fails: with a total of 100 at entry the loop runs two rounds and
  removes twice, and the total is requested once only.\<close>

theorem empty_playlist_total_once_counterexample:
  "length (filter (\<lambda>r. rmethod r = DELETE)
     (reqs (snd (empty_playlist script_api (h0 demo_removal) (JStr ''p''))))) = 2
   \<and> length (filter (\<lambda>r. r = total_request [(''Authorization'', ''Bearer t'')] (JStr ''p''))
       (reqs (snd (empty_playlist script_api (h0 demo_removal) (JStr ''p''))))) = 1"
  by (simp add: demo_removal_run)
     (simp add: total_request_def limit_request_def remove_request_def call_request_def)

theorem empty_playlist_rounds_witness:
  "fst (empty_playlist script_api (h0 demo_removal) (JStr ''p'')) = Inr None
   \<and> (\<exists>xs. reqs (snd (empty_playlist script_api (h0 demo_removal) (JStr ''p''))) =
             total_request [(''Authorization'', ''Bearer t'')] (JStr ''p'') # map fst xs
           \<and> length xs = 4
           \<and> removal_rounds [(''Authorization'', ''Bearer t'')] (JStr ''p'') xs)"
proof -
  have ret: "fst (empty_playlist script_api (h0 demo_removal) (JStr ''p'')) = Inr None"
    by (simp add: demo_removal_run)
  have tot: "reported_total (fst (script_api (world (h0 demo_removal))
               (total_request (api_headers (h0 demo_removal)) (JStr ''p'')))) = Inr 100"
    by (simp add: reported_total_def script_api_def demo_removal_def ok_def h0_def then_exn_def)
  have c: "nat (ceil_div 100 50) = 2" by (simp add: ceil_div_def)
  from empty_playlist_rounds [OF ret] tot c ret show ?thesis
    by (auto simp: h0_def)
qed

section \<open>Properties of get_songs_and_lan\<close>

lemma map_exn_all2:
  "map_exn f xs = Inr ys \<Longrightarrow> list_all2 (\<lambda>y x. f x = Inr y) ys xs"
proof (induction xs arbitrary: ys)
  case Nil
  then show ?case by simp
next
  case (Cons x xs)
  from Cons.prems obtain y zs where y: "f x = Inr y" and zs: "map_exn f xs = Inr zs"
    and ys: "ys = y # zs"
    by (auto simp: then_exn_def split: sum.splits)
  from Cons.IH [OF zs] y ys show ?case by simp
qed

lemma dispatch_songs: "map fst (fst (dispatch_lookups gen ts h)) = ts"
  by (induction ts arbitrary: h) (simp_all add: Let_def)

lemma unidentified_set: "unidentified \<noteq> JNull"
  by (simp add: unidentified_def)

lemma resolve_track_label:
  assumes "resolve_track sr = Inr track"
  shows "track = (fst sr)\<lparr>lan := lan track\<rparr> \<and> lan track \<noteq> JNull
         \<and> (case lookup_language (snd sr) of
              Inr v \<Rightarrow> lan track = (if v = JNull then unidentified else v)
            | Inl e \<Rightarrow> (e = KeyError \<or> e = IndexError) \<and> lan track = unidentified)"
  using assms
  by (auto simp: resolve_track_def unidentified_set split: sum.splits exn.splits if_splits)

text \<open>
  Claim C3, amended. When \<^verbatim>\<open>get_songs_and_lan\<close> returns, every returned track is the
  fetched track with its label set, and the label is never \<^verbatim>\<open>None\<close>: it is the language of
  the first hit when the lookup gives one that is not null, and exactly \<open>unidentified\<close> when
  the language is null or the path to it raises \<^verbatim>\<open>KeyError\<close> or \<^verbatim>\<open>IndexError\<close> (no hits, a
  missing field). No lookup of a returned run has failed otherwise.
\<close>

theorem get_songs_and_lan_labels:
  assumes "fst (get_songs_and_lan api gen h) = Inr tracks"
  shows "\<exists>songs. fst (get_songs api h) = Inr songs
           \<and> map fst (fst (dispatch_lookups gen songs (snd (get_songs api h)))) = songs
           \<and> list_all2 (\<lambda>track sr.
                 track = (fst sr)\<lparr>lan := lan track\<rparr> \<and> lan track \<noteq> JNull
                 \<and> (case lookup_language (snd sr) of
                      Inr v \<Rightarrow> lan track = (if v = JNull then unidentified else v)
                    | Inl e \<Rightarrow> (e = KeyError \<or> e = IndexError) \<and> lan track = unidentified))
               tracks (fst (dispatch_lookups gen songs (snd (get_songs api h))))"
proof (cases "fst (get_songs api h)")
  case (Inl e)
  with assms show ?thesis by (simp add: get_songs_and_lan_def Let_def)
next
  case (Inr songs)
  let ?d = "fst (dispatch_lookups gen songs (snd (get_songs api h)))"
  from assms Inr have "map_exn resolve_track ?d = Inr tracks"
    by (simp add: get_songs_and_lan_def Let_def)
  then have "list_all2 (\<lambda>track sr. resolve_track sr = Inr track) tracks ?d"
    by (rule map_exn_all2)
  then have "list_all2 (\<lambda>track sr.
                 track = (fst sr)\<lparr>lan := lan track\<rparr> \<and> lan track \<noteq> JNull
                 \<and> (case lookup_language (snd sr) of
                      Inr v \<Rightarrow> lan track = (if v = JNull then unidentified else v)
                    | Inl e \<Rightarrow> (e = KeyError \<or> e = IndexError) \<and> lan track = unidentified))
               tracks ?d"
    by (rule list_all2_mono) (rule resolve_track_label)
  with Inr dispatch_songs [of gen songs "snd (get_songs api h)"] show ?thesis by blast
qed

lemma rd1: "py_range (if round_div50 2 = 0 then 1 else round_div50 2) = [0]"
  "py_range (if round_div50 1 = 0 then 1 else round_div50 1) = [0]"
  by (simp_all add: round_div50_def py_range_def Let_def)

lemma demo_enrich_run:
  "fst (get_songs_and_lan script_api script_genius (h0 demo_enrich)) =
     Inr [\<lparr>name = JStr ''n1'', artist = JStr ''a1'', lan = JStr ''unidentified'', uri = JStr ''u1''\<rparr>,
          \<lparr>name = JStr ''n2'', artist = JStr ''a2'', lan = JStr ''en'', uri = JStr ''u2''\<rparr>]"
  by (simp add: get_songs_and_lan_def get_songs_def get_resource_def get_resource_page_def rd1 Let_def
      make_call_def script_api_def script_genius_def demo_enrich_def ok_def saved_def hit_def h0_def
      then_exn_def new_song_def resolve_track_def lookup_language_def unidentified_def)

text \<open>The claim as stated fails: a lookup that fails is fatal to the call.\<close>

theorem get_songs_and_lan_lookup_fails_counterexample:
  "fst (get_songs_and_lan script_api script_genius (h0 demo_enrich_fails)) = Inl ConnectionError"
  by (simp add: get_songs_and_lan_def get_songs_def get_resource_def get_resource_page_def rd1 Let_def
      make_call_def script_api_def script_genius_def demo_enrich_fails_def ok_def saved_def h0_def
      then_exn_def new_song_def resolve_track_def lookup_language_def)

theorem get_songs_and_lan_labels_witness:
  "fst (get_songs_and_lan script_api script_genius (h0 demo_enrich)) =
     Inr [\<lparr>name = JStr ''n1'', artist = JStr ''a1'', lan = JStr ''unidentified'', uri = JStr ''u1''\<rparr>,
          \<lparr>name = JStr ''n2'', artist = JStr ''a2'', lan = JStr ''en'', uri = JStr ''u2''\<rparr>]
   \<and> (\<exists>songs. fst (get_songs script_api (h0 demo_enrich)) = Inr songs
        \<and> list_all2 (\<lambda>track sr. lan track \<noteq> JNull)
            [\<lparr>name = JStr ''n1'', artist = JStr ''a1'', lan = JStr ''unidentified'', uri = JStr ''u1''\<rparr>,
             \<lparr>name = JStr ''n2'', artist = JStr ''a2'', lan = JStr ''en'', uri = JStr ''u2''\<rparr>]
            (fst (dispatch_lookups script_genius songs (snd (get_songs script_api (h0 demo_enrich))))))"
proof -
  from get_songs_and_lan_labels [OF demo_enrich_run] obtain songs where
    s: "fst (get_songs script_api (h0 demo_enrich)) = Inr songs"
    and l: "list_all2 (\<lambda>track sr.
                 track = (fst sr)\<lparr>lan := lan track\<rparr> \<and> lan track \<noteq> JNull
                 \<and> (case lookup_language (snd sr) of
                      Inr v \<Rightarrow> lan track = (if v = JNull then unidentified else v)
                    | Inl e \<Rightarrow> (e = KeyError \<or> e = IndexError) \<and> lan track = unidentified))
            [\<lparr>name = JStr ''n1'', artist = JStr ''a1'', lan = JStr ''unidentified'', uri = JStr ''u1''\<rparr>,
             \<lparr>name = JStr ''n2'', artist = JStr ''a2'', lan = JStr ''en'', uri = JStr ''u2''\<rparr>]
            (fst (dispatch_lookups script_genius songs (snd (get_songs script_api (h0 demo_enrich)))))"
    by blast
  from l have "list_all2 (\<lambda>track sr. lan track \<noteq> JNull)
            [\<lparr>name = JStr ''n1'', artist = JStr ''a1'', lan = JStr ''unidentified'', uri = JStr ''u1''\<rparr>,
             \<lparr>name = JStr ''n2'', artist = JStr ''a2'', lan = JStr ''en'', uri = JStr ''u2''\<rparr>]
            (fst (dispatch_lookups script_genius songs (snd (get_songs script_api (h0 demo_enrich)))))"
    by (rule list_all2_mono) simp
  with s demo_enrich_run show ?thesis by blast
qed

section \<open>Properties of authorize and process\<close>

lemma process_token_failed:
  assumes "access_token (fst (tok w (cid, key, code))) = Inl e"
  shows "process api tok gen set_order cid key code w =
           (Inr (JBool False),
            (new_handler cid key (snd (tok w (cid, key, code))))
              \<lparr>logs := [LogInfo ''Process started'', LogTokenFailed]\<rparr>)"
  using assms
  by (simp add: process_def authorize_def log_info_def new_handler_def Let_def)

text \<open>
  Claim C9. If the token exchange fails, so that no access token is obtained, the run ends at
  once: \<^verbatim>\<open>process\<close> returns \<^verbatim>\<open>False\<close>, and it has issued no request through \<^verbatim>\<open>make_call\<close>
  (no fetch, no playlist mutation) and no enrichment lookup.
\<close>

theorem process_aborts_without_token:
  assumes "access_token (fst (tok w (cid, key, code))) = Inl e"
  shows "fst (process api tok gen set_order cid key code w) = Inr (JBool False)
         \<and> reqs (snd (process api tok gen set_order cid key code w)) = []
         \<and> lookups (snd (process api tok gen set_order cid key code w)) = []
         \<and> LogTokenFailed \<in> set (logs (snd (process api tok gen set_order cid key code w)))"
proof -
  have run: "process api tok gen set_order cid key code w =
           (Inr (JBool False),
            (new_handler cid key (snd (tok w (cid, key, code))))
              \<lparr>logs := [LogInfo ''Process started'', LogTokenFailed]\<rparr>)"
    using assms by (rule process_token_failed)
  show ?thesis by (simp add: run new_handler_def)
qed

theorem process_aborts_without_token_witness:
  "access_token (fst (script_token demo_refused (''id'', ''key'', JStr ''c''))) = Inl KeyError
   \<and> fst (process script_api script_token script_genius (\<lambda>ks. ks) ''id'' ''key'' (JStr ''c'')
          demo_refused) = Inr (JBool False)
   \<and> reqs (snd (process script_api script_token script_genius (\<lambda>ks. ks) ''id'' ''key'' (JStr ''c'')
          demo_refused)) = []"
proof -
  have t: "access_token (fst (script_token demo_refused (''id'', ''key'', JStr ''c''))) = Inl KeyError"
    by (simp add: access_token_def script_token_def demo_refused_def then_exn_def)
  have "fst (process script_api script_token script_genius (\<lambda>ks. ks) ''id'' ''key'' (JStr ''c'')
          demo_refused) = Inr (JBool False)
   \<and> reqs (snd (process script_api script_token script_genius (\<lambda>ks. ks) ''id'' ''key'' (JStr ''c'')
          demo_refused)) = []
   \<and> lookups (snd (process script_api script_token script_genius (\<lambda>ks. ks) ''id'' ''key'' (JStr ''c'')
          demo_refused)) = []
   \<and> LogTokenFailed \<in> set (logs (snd (process script_api script_token script_genius (\<lambda>ks. ks)
          ''id'' ''key'' (JStr ''c'') demo_refused)))"
    using t by (rule process_aborts_without_token)
  with t show ?thesis by blast
qed

lemma process_total_fails:
  assumes "tok w (cid, key, code) = (rt, w1)"
    and "access_token rt = Inr (JStr s)" and "s \<noteq> []"
    and "api w1 (call_request [(''Authorization'', ''Bearer '' @ s)] GET Me
           (Some [(''Authorization'', ''Bearer '' @ s)]) None None) = (rm, w2)"
    and "then_exn (reply_json rm) (\<lambda>j. py_getitem j ''id'') = Inr u"
    and "api w2 (call_request [(''Authorization'', ''Bearer '' @ s)] GET MeTracks None None None) =
           (Reply st (Some j), w3)"
    and "then_exn (py_getitem j ''total'') py_num = Inl e"
  shows "fst (process api tok gen set_order cid key code w) = Inl e"
  using assms
  by (simp add: process_def authorize_def get_user_id_def get_songs_and_lan_def get_songs_def
      get_resource_def make_call_def log_info_def new_handler_def Let_def then_exn_def)

text \<open>The claim as stated fails: the listing of the saved tracks is answered without a
  total, and the \<^verbatim>\<open>KeyError\<close> leaves \<^verbatim>\<open>process\<close>.\<close>

theorem process_raises_counterexample:
  "fst (process script_api script_token script_genius (\<lambda>ks. ks) ''id'' ''key'' (JStr ''c'')
     demo_no_total) = Inl KeyError"
  by (simp add: process_def authorize_def access_token_def get_user_id_def get_songs_and_lan_def
      get_songs_def get_resource_def make_call_def log_info_def new_handler_def Let_def then_exn_def
      script_api_def script_token_def demo_no_total_def ok_def)

lemma get_resource_returns:
  assumes "reported_total (fst (api (world h) (call_request (api_headers h) GET ep hs dat ps))) = Inr N"
  shows "\<exists>items. fst (get_resource api h ep hs dat ps) = Inr items"
  using assms by (simp add: get_resource_def reported_total_def make_call_fst Let_def)

lemma resolve_track_fallback:
  assumes "lookup_language rep = Inl KeyError \<or> lookup_language rep = Inl IndexError"
  shows "resolve_track (t, rep) = Inr (t\<lparr>lan := unidentified\<rparr>)"
  using assms by (auto simp: resolve_track_def)

lemma create_playlist_no_id:
  assumes "user_id h = Some u"
    and "then_exn (reply_json (fst (api (world h) (create_request (api_headers h) u nm))))
           (\<lambda>j. py_get j ''id'') = Inr pid"
    and "\<not> py_truthy pid"
  shows "fst (create_playlist api h nm songs) = Inr False
         \<and> reqs (snd (create_playlist api h nm songs)) = reqs h @ [create_request (api_headers h) u nm]"
  using assms
  by (simp add: create_playlist_def Let_def make_call_fst make_call_reqs create_request_def)

text \<open>
  Claim C6, amended. Failures are converted where the code has a handler or a guard: a failed
  token exchange makes \<^verbatim>\<open>process\<close> return \<^verbatim>\<open>False\<close>; once a listing's total is known,
  \<^verbatim>\<open>get_resource\<close> returns normally whatever its page requests do; a \<^verbatim>\<open>KeyError\<close> or
  \<^verbatim>\<open>IndexError\<close> while reading a lookup's language gives the fallback label; a creation call
  that yields no id makes \<^verbatim>\<open>create_playlist\<close> return \<^verbatim>\<open>False\<close> with no further request.
  \<^verbatim>\<open>process\<close> has no handler of its own: when, after a successful authorization, the
  request that learns the total of the saved tracks is answered with a body that has no usable
  total, the exception leaves \<^verbatim>\<open>process\<close>.
\<close>

theorem process_failure_boundaries:
  "(access_token (fst (tok w (cid, key, code))) = Inl e \<longrightarrow>
      fst (process api tok gen set_order cid key code w) = Inr (JBool False))
   \<and> (reported_total (fst (api (world h) (call_request (api_headers h) GET ep hs dat ps))) = Inr N \<longrightarrow>
        (\<exists>items. fst (get_resource api h ep hs dat ps) = Inr items))
   \<and> (lookup_language rep = Inl KeyError \<or> lookup_language rep = Inl IndexError \<longrightarrow>
        resolve_track (t, rep) = Inr (t\<lparr>lan := unidentified\<rparr>))
   \<and> (user_id h' = Some u
        \<and> then_exn (reply_json (fst (api (world h') (create_request (api_headers h') u nm))))
            (\<lambda>j. py_get j ''id'') = Inr pid
        \<and> \<not> py_truthy pid \<longrightarrow>
        fst (create_playlist api h' nm songs) = Inr False
        \<and> reqs (snd (create_playlist api h' nm songs)) =
            reqs h' @ [create_request (api_headers h') u nm])
   \<and> (tok w' (cid, key, code') = (rt, w1)
        \<and> access_token rt = Inr (JStr s) \<and> s \<noteq> []
        \<and> api w1 (call_request [(''Authorization'', ''Bearer '' @ s)] GET Me
             (Some [(''Authorization'', ''Bearer '' @ s)]) None None) = (rm, w2)
        \<and> then_exn (reply_json rm) (\<lambda>j. py_getitem j ''id'') = Inr u'
        \<and> api w2 (call_request [(''Authorization'', ''Bearer '' @ s)] GET MeTracks None None None) =
             (Reply st (Some j), w3)
        \<and> then_exn (py_getitem j ''total'') py_num = Inl e' \<longrightarrow>
        fst (process api tok gen set_order cid key code' w') = Inl e')"
proof (intro conjI impI)
  assume "access_token (fst (tok w (cid, key, code))) = Inl e"
  then have "process api tok gen set_order cid key code w =
           (Inr (JBool False),
            (new_handler cid key (snd (tok w (cid, key, code))))
              \<lparr>logs := [LogInfo ''Process started'', LogTokenFailed]\<rparr>)"
    by (rule process_token_failed)
  then show "fst (process api tok gen set_order cid key code w) = Inr (JBool False)" by simp
next
  assume "reported_total (fst (api (world h) (call_request (api_headers h) GET ep hs dat ps))) = Inr N"
  then show "\<exists>items. fst (get_resource api h ep hs dat ps) = Inr items"
    by (rule get_resource_returns)
next
  assume "lookup_language rep = Inl KeyError \<or> lookup_language rep = Inl IndexError"
  then show "resolve_track (t, rep) = Inr (t\<lparr>lan := unidentified\<rparr>)"
    by (rule resolve_track_fallback)
next
  assume a: "user_id h' = Some u
        \<and> then_exn (reply_json (fst (api (world h') (create_request (api_headers h') u nm))))
            (\<lambda>j. py_get j ''id'') = Inr pid
        \<and> \<not> py_truthy pid"
  from a have a1: "user_id h' = Some u" by simp
  from a have a2: "then_exn (reply_json (fst (api (world h') (create_request (api_headers h') u nm))))
            (\<lambda>j. py_get j ''id'') = Inr pid" by simp
  from a have a3: "\<not> py_truthy pid" by simp
  from a1 a2 a3 have c: "fst (create_playlist api h' nm songs) = Inr False
         \<and> reqs (snd (create_playlist api h' nm songs)) = reqs h' @ [create_request (api_headers h') u nm]"
    by (rule create_playlist_no_id)
  from c show "fst (create_playlist api h' nm songs) = Inr False" by simp
  from c show "reqs (snd (create_playlist api h' nm songs)) =
            reqs h' @ [create_request (api_headers h') u nm]" by simp
next
  assume a: "tok w' (cid, key, code') = (rt, w1)
        \<and> access_token rt = Inr (JStr s) \<and> s \<noteq> []
        \<and> api w1 (call_request [(''Authorization'', ''Bearer '' @ s)] GET Me
             (Some [(''Authorization'', ''Bearer '' @ s)]) None None) = (rm, w2)
        \<and> then_exn (reply_json rm) (\<lambda>j. py_getitem j ''id'') = Inr u'
        \<and> api w2 (call_request [(''Authorization'', ''Bearer '' @ s)] GET MeTracks None None None) =
             (Reply st (Some j), w3)
        \<and> then_exn (py_getitem j ''total'') py_num = Inl e'"
  from a have b1: "tok w' (cid, key, code') = (rt, w1)" by blast
  from a have b2: "access_token rt = Inr (JStr s)" by blast
  from a have b3: "s \<noteq> []" by blast
  from a have b4: "api w1 (call_request [(''Authorization'', ''Bearer '' @ s)] GET Me
             (Some [(''Authorization'', ''Bearer '' @ s)]) None None) = (rm, w2)" by blast
  from a have b5: "then_exn (reply_json rm) (\<lambda>j. py_getitem j ''id'') = Inr u'" by blast
  from a have b6: "api w2 (call_request [(''Authorization'', ''Bearer '' @ s)] GET MeTracks None None None) =
             (Reply st (Some j), w3)" by blast
  from a have b7: "then_exn (py_getitem j ''total'') py_num = Inl e'" by blast
  from b1 b2 b3 b4 b5 b6 b7
  show "fst (process api tok gen set_order cid key code' w') = Inl e'"
    by (rule process_total_fails)
qed

text \<open>No hits.\<close>

lemma no_hits: "lookup_language (ok (JObj [(''response'', JObj [(''hits'', JList [])])])) = Inl IndexError"
  by (simp add: lookup_language_def ok_def then_exn_def)

theorem process_failure_boundaries_witness:
  "fst (process script_api script_token script_genius (\<lambda>ks. ks) ''id'' ''key'' (JStr ''c'')
       demo_refused) = Inr (JBool False)
   \<and> (\<exists>items. fst (get_resource script_api (h0 demo_listing) MeTracks None None None) = Inr items)
   \<and> resolve_track (\<lparr>name = JStr ''n'', artist = JStr ''a'', lan = JNull, uri = JStr ''u''\<rparr>,
        ok (JObj [(''response'', JObj [(''hits'', JList [])])])) =
       Inr \<lparr>name = JStr ''n'', artist = JStr ''a'', lan = unidentified, uri = JStr ''u''\<rparr>
   \<and> fst (create_playlist script_api (h0 [ok (JObj [])]) (JStr ''en'') [JStr ''x'']) = Inr False
   \<and> fst (process script_api script_token script_genius (\<lambda>ks. ks) ''id'' ''key'' (JStr ''c'')
       demo_no_total) = Inl KeyError"
proof -
  have h1: "access_token (fst (script_token demo_refused (''id'', ''key'', JStr ''c''))) = Inl KeyError"
    by (simp add: access_token_def script_token_def demo_refused_def then_exn_def)
  have h2: "reported_total (fst (script_api (world (h0 demo_listing))
              (call_request (api_headers (h0 demo_listing)) GET MeTracks None None None))) = Inr 120"
    by (simp add: reported_total_def script_api_def demo_listing_def ok_def h0_def then_exn_def)
  have h4: "user_id (h0 [ok (JObj [])]) = Some (JStr ''u'')
      \<and> then_exn (reply_json (fst (script_api (world (h0 [ok (JObj [])]))
            (create_request (api_headers (h0 [ok (JObj [])])) (JStr ''u'') (JStr ''en'')))))
          (\<lambda>j. py_get j ''id'') = Inr JNull
      \<and> \<not> py_truthy JNull"
    by (simp add: script_api_def ok_def h0_def then_exn_def)
  have h5: "script_token demo_no_total (''id'', ''key'', JStr ''c'') =
        (ok (JObj [(''access_token'', JStr ''t'')]), tl demo_no_total)
      \<and> access_token (ok (JObj [(''access_token'', JStr ''t'')])) = Inr (JStr ''t'') \<and> ''t'' \<noteq> []
      \<and> script_api (tl demo_no_total) (call_request [(''Authorization'', ''Bearer '' @ ''t'')] GET Me
             (Some [(''Authorization'', ''Bearer '' @ ''t'')]) None None) =
           (ok (JObj [(''id'', JStr ''u'')]), tl (tl demo_no_total))
      \<and> then_exn (reply_json (ok (JObj [(''id'', JStr ''u'')]))) (\<lambda>j. py_getitem j ''id'') = Inr (JStr ''u'')
      \<and> script_api (tl (tl demo_no_total))
           (call_request [(''Authorization'', ''Bearer '' @ ''t'')] GET MeTracks None None None) =
           (Reply 401 (Some (JObj [(''error'', JObj [(''status'', JInt 401)])])), [])
      \<and> then_exn (py_getitem (JObj [(''error'', JObj [(''status'', JInt 401)])]) ''total'') py_num =
           Inl KeyError"
    by (simp add: script_token_def script_api_def demo_no_total_def access_token_def ok_def then_exn_def)
  from process_failure_boundaries [where api = script_api and tok = script_token
      and gen = script_genius and set_order = "\<lambda>ks. ks" and cid = "''id''" and key = "''key''"
      and code = "JStr ''c''" and w = demo_refused and e = KeyError
      and h = "h0 demo_listing" and ep = MeTracks and hs = None and dat = None and ps = None and N = 120
      and rep = "ok (JObj [(''response'', JObj [(''hits'', JList [])])])"
      and t = "\<lparr>name = JStr ''n'', artist = JStr ''a'', lan = JNull, uri = JStr ''u''\<rparr>"
      and h' = "h0 [ok (JObj [])]" and u = "JStr ''u''" and nm = "JStr ''en''" and pid = JNull
      and songs = "[JStr ''x'']"
      and w' = demo_no_total and code' = "JStr ''c''"
      and rt = "ok (JObj [(''access_token'', JStr ''t'')])" and ?w1.0 = "tl demo_no_total"
      and s = "''t''" and rm = "ok (JObj [(''id'', JStr ''u'')])" and ?w2.0 = "tl (tl demo_no_total)"
      and u' = "JStr ''u''" and st = 401 and j = "JObj [(''error'', JObj [(''status'', JInt 401)])]"
      and ?w3.0 = "[]" and e' = KeyError]
    h1 h2 no_hits h4 h5
  show ?thesis by simp
qed

section \<open>Properties of the grouping by language\<close>

lemma map_exn_Cons_Inr:
  "map_exn f (x # xs) = Inr ys \<longleftrightarrow> (\<exists>y zs. f x = Inr y \<and> map_exn f xs = Inr zs \<and> ys = y # zs)"
  by (auto simp: then_exn_def split: sum.splits)

lemma py_hash_Inr: "py_hash x = Inr y \<Longrightarrow> y = x"
  by (simp add: py_hash_def split: if_splits)

lemma map_exn_py_hash: "map_exn py_hash xs = Inr ys \<Longrightarrow> ys = xs"
proof (induction xs arbitrary: ys)
  case Nil
  then show ?case by simp
next
  case (Cons x xs)
  from Cons.prems obtain y zs where "py_hash x = Inr y" "map_exn py_hash xs = Inr zs" "ys = y # zs"
    unfolding map_exn_Cons_Inr by blast
  with Cons.IH py_hash_Inr show ?case by blast
qed

lemma fold_set_add:
  "distinct (map py_key acc) \<Longrightarrow>
   distinct (map py_key (fold set_add ys acc))
   \<and> set (map py_key (fold set_add ys acc)) = set (map py_key acc) \<union> set (map py_key ys)"
proof (induction ys arbitrary: acc)
  case Nil
  then show ?case by simp
next
  case (Cons y ys)
  have d: "distinct (map py_key (set_add y acc))"
    using Cons.prems by (simp add: set_add_def)
  have s: "set (map py_key (set_add y acc)) = insert (py_key y) (set (map py_key acc))"
    by (auto simp: set_add_def)
  from Cons.IH [OF d] s show ?case by simp
qed

lemma py_set_keys:
  assumes "py_set xs = Inr ks"
  shows "distinct (map py_key ks) \<and> set (map py_key ks) = set (map py_key xs)"
proof -
  from assms obtain ys where ys: "map_exn py_hash xs = Inr ys" and ks: "ks = fold set_add ys []"
    by (auto simp: py_set_def then_exn_def split: sum.splits)
  from ys have "ys = xs" by (rule map_exn_py_hash)
  with ks fold_set_add [of "[]" xs] show ?thesis by simp
qed

lemma dict_get_Some:
  assumes "distinct (map (\<lambda>kv. py_key (fst kv)) d)"
  shows "dict_get d k = Some v \<longleftrightarrow> (\<exists>kv \<in> set d. py_key (fst kv) = py_key k \<and> snd kv = v)"
proof -
  have "distinct (map fst (map (\<lambda>kv. (py_key (fst kv), snd kv)) d))"
    using assms by (simp add: comp_def)
  then have "map_of (map (\<lambda>kv. (py_key (fst kv), snd kv)) d) (py_key k) = Some v
               \<longleftrightarrow> (py_key k, v) \<in> set (map (\<lambda>kv. (py_key (fst kv), snd kv)) d)"
    by (rule map_of_eq_Some_iff)
  moreover have "(py_key k, v) \<in> set (map (\<lambda>kv. (py_key (fst kv), snd kv)) d)
               \<longleftrightarrow> (\<exists>kv \<in> set d. py_key (fst kv) = py_key k \<and> snd kv = v)"
    by force
  ultimately show ?thesis unfolding dict_get_def by simp
qed

lemma dict_append_map:
  assumes "distinct (map (\<lambda>kv. py_key (fst kv)) d)" and "dict_append d k v = Inr d'"
  shows "d' = map (\<lambda>kv. if py_key (fst kv) = py_key k then (fst kv, snd kv @ [v]) else kv) d
         \<and> py_key k \<in> set (map (\<lambda>kv. py_key (fst kv)) d)"
proof -
  from assms(2) obtain vs where g: "dict_get d k = Some vs" and d': "d' = dict_set d k (vs @ [v])"
    by (auto simp: dict_append_def split: option.splits)
  from g assms(1) have ex: "\<exists>kv \<in> set d. py_key (fst kv) = py_key k \<and> snd kv = vs"
    by (simp add: dict_get_Some)
  then have mem: "py_key k \<in> set (map (\<lambda>kv. py_key (fst kv)) d)" by force
  have same: "snd kv = vs" if "kv \<in> set d" "py_key (fst kv) = py_key k" for kv
  proof -
    from that assms(1) have "dict_get d k = Some (snd kv)"
      by (auto simp: dict_get_Some)
    with g show ?thesis by simp
  qed
  have "dict_set d k (vs @ [v]) =
          map (\<lambda>kv. if py_key (fst kv) = py_key k then (fst kv, vs @ [v]) else kv) d"
    using mem by (simp add: dict_set_def)
  also have "\<dots> = map (\<lambda>kv. if py_key (fst kv) = py_key k then (fst kv, snd kv @ [v]) else kv) d"
    by (rule map_cong) (simp_all add: same)
  finally show ?thesis using d' mem by simp
qed

lemma add_keys:
  "map (\<lambda>kv. py_key (fst kv))
     (map (\<lambda>kv. if py_key (fst kv) = k then (fst kv, snd kv @ [v]) else kv) d) =
   map (\<lambda>kv. py_key (fst kv)) d"
  by (induction d) simp_all


lemma add_absent:
  "k \<notin> set (map (\<lambda>kv. py_key (fst kv)) d) \<Longrightarrow>
   map (\<lambda>kv. if py_key (fst kv) = k then (fst kv, snd kv @ [v]) else kv) d = d"
  by (induction d) auto

lemma add_mset_flat:
  "distinct (map (\<lambda>kv. py_key (fst kv)) d) \<Longrightarrow> k \<in> set (map (\<lambda>kv. py_key (fst kv)) d) \<Longrightarrow>
   mset (concat (map snd (map (\<lambda>kv. if py_key (fst kv) = k then (fst kv, snd kv @ [v]) else kv) d))) =
     add_mset v (mset (concat (map snd d)))"
proof (induction d)
  case Nil
  then show ?case by simp
next
  case (Cons kv d)
  show ?case
  proof (cases "py_key (fst kv) = k")
    case True
    with Cons.prems(1) have "k \<notin> set (map (\<lambda>kv. py_key (fst kv)) d)" by auto
    then have "map (\<lambda>kv. if py_key (fst kv) = k then (fst kv, snd kv @ [v]) else kv) d = d"
      by (rule add_absent)
    with True show ?thesis by simp
  next
    case False
    with Cons.prems have "distinct (map (\<lambda>kv. py_key (fst kv)) d)"
      and "k \<in> set (map (\<lambda>kv. py_key (fst kv)) d)" by auto
    then have "mset (concat (map snd (map (\<lambda>kv. if py_key (fst kv) = k then (fst kv, snd kv @ [v]) else kv) d))) =
        add_mset v (mset (concat (map snd d)))"
      by (rule Cons.IH)
    with False show ?thesis by simp
  qed
qed

lemma group_loop_mset:
  "distinct (map (\<lambda>kv. py_key (fst kv)) d) \<Longrightarrow> group_loop d ss = Inr d' \<Longrightarrow>
   mset (concat (map snd d')) = mset (concat (map snd d)) + mset (map uri ss)"
proof (induction ss arbitrary: d)
  case Nil
  then show ?case by simp
next
  case (Cons s ss)
  let ?d1 = "map (\<lambda>kv. if py_key (fst kv) = py_key (lan s) then (fst kv, snd kv @ [uri s]) else kv) d"
  from Cons.prems(2) obtain d1 where a: "dict_append d (lan s) (uri s) = Inr d1"
    and r: "group_loop d1 ss = Inr d'"
    by (auto simp: then_exn_def split: sum.splits)
  from dict_append_map [OF Cons.prems(1) a] have d1: "d1 = ?d1"
    and mem: "py_key (lan s) \<in> set (map (\<lambda>kv. py_key (fst kv)) d)" by simp_all
  have dist: "distinct (map (\<lambda>kv. py_key (fst kv)) ?d1)"
    unfolding add_keys by (rule Cons.prems(1))
  from r d1 have "group_loop ?d1 ss = Inr d'" by simp
  with dist have "mset (concat (map snd d')) = mset (concat (map snd ?d1)) + mset (map uri ss)"
    by (rule Cons.IH)
  also have "mset (concat (map snd ?d1)) = add_mset (uri s) (mset (concat (map snd d)))"
    using Cons.prems(1) mem by (rule add_mset_flat)
  finally show ?case by simp
qed

lemma perm_keys:
  assumes "mset (set_order ks) = mset ks" and "distinct (map py_key ks)"
  shows "distinct (map py_key (set_order ks)) \<and> set (map py_key (set_order ks)) = set (map py_key ks)"
proof -
  have m: "mset (map py_key (set_order ks)) = mset (map py_key ks)"
    using assms(1) by (metis mset_map)
  from m have "distinct (map py_key (set_order ks)) = distinct (map py_key ks)"
    by (rule mset_eq_imp_distinct_iff)
  moreover from m have "set (map py_key (set_order ks)) = set (map py_key ks)"
    by (rule mset_eq_setD)
  ultimately show ?thesis using assms(2) by simp
qed

lemma empty_groups_keys:
  "map (\<lambda>kv. py_key (fst kv)) (map (\<lambda>l. (l, [])) ks) = map py_key ks"
  by (simp add: comp_def)

lemma empty_groups_flat: "concat (map snd (map (\<lambda>l. (l, [])) ks)) = []"
  by (induction ks) simp_all

text \<open>
  Claim C8. Grouping the uris of the enriched tracks by label and flattening the groups into
  one sequence gives the multiset of the uris of all the enriched tracks: none is lost, none
  doubled. (The order in which a set is iterated permutes its elements.)
\<close>

theorem grouping_keeps_uris:
  assumes "lan_songs_dict set_order songs = Inr d"
    and "\<And>ks. mset (set_order ks) = mset ks"
  shows "mset (concat (map snd d)) = mset (map uri songs)"
proof -
  from assms(1) obtain ks where ks: "py_set (map lan songs) = Inr ks"
    and g: "group_loop (map (\<lambda>l. (l, [])) (set_order ks)) songs = Inr d"
    by (auto simp: lan_songs_dict_def then_exn_def split: sum.splits)
  from py_set_keys [OF ks] have "distinct (map py_key ks)" by simp
  with assms(2) have "distinct (map py_key (set_order ks))" by (simp add: perm_keys)
  then have "distinct (map (\<lambda>kv. py_key (fst kv)) (map (\<lambda>l. (l, [])) (set_order ks)))"
    unfolding empty_groups_keys .
  from group_loop_mset [OF this g] show ?thesis by (simp add: empty_groups_flat)
qed

lemma demo_groups:
  "lan_songs_dict rev demo_songs =
     Inr [(JStr ''pl'', [JStr ''u2'']), (JStr ''en'', [JStr ''u1'', JStr ''u3''])]"
  by (simp add: lan_songs_dict_def py_set_def py_hash_def set_add_def then_exn_def demo_songs_def
      dict_append_def dict_get_def dict_set_def)

theorem grouping_keeps_uris_witness:
  "lan_songs_dict rev demo_songs =
     Inr [(JStr ''pl'', [JStr ''u2'']), (JStr ''en'', [JStr ''u1'', JStr ''u3''])]
   \<and> mset (concat (map snd [(JStr ''pl'', [JStr ''u2'']), (JStr ''en'', [JStr ''u1'', JStr ''u3''])])) =
       mset (map uri demo_songs)"
proof -
  have "mset (concat (map snd [(JStr ''pl'', [JStr ''u2'']), (JStr ''en'', [JStr ''u1'', JStr ''u3''])])) =
       mset (map uri demo_songs)"
    using demo_groups by (rule grouping_keeps_uris) simp
  with demo_groups show ?thesis by simp
qed

section \<open>Properties of the population of the playlists\<close>

















section \<open>When the loops and the grouping return\<close>

text \<open>Ties of \<^verbatim>\<open>round\<close> go to the even neighbour.\<close>

lemma round_div50_ties: "round_div50 25 = 0 \<and> round_div50 75 = 2 \<and> round_div50 125 = 2"
  by (simp add: round_div50_def Let_def)

lemma for_loop_all_None:
  "(\<And>x s. fst (body x s) = Inr None) \<Longrightarrow> fst (for_loop body xs s) = Inr None"
  by (induction xs arbitrary: s) (simp_all add: Let_def)

text \<open>\<^verbatim>\<open>update_playlist\<close> returns normally when every request is answered with a JSON
  body.\<close>

lemma update_playlist_returns:
  assumes "\<And>w r. \<exists>st j. fst (api w r) = Reply st (Some j)"
  shows "fst (update_playlist api h pid U) = Inr None"
proof -
  have "fst (update_playlist_round api pid U i s) = Inr None" for i s
  proof -
    from assms obtain st j where
      "fst (api (world s) (call_request (api_headers s) POST (PlaylistTracks pid) None
         (Some (JObj [(''uris'', JList (take 90 (drop (i * 90) U)))])) None)) = Reply st (Some j)"
      by blast
    then show ?thesis
      by (simp add: update_playlist_round_def Let_def make_call_fst then_exn_def)
  qed
  then show ?thesis
    unfolding update_playlist_def by (rule for_loop_all_None)
qed

lemma map_exn_py_hash_returns:
  "\<forall>x \<in> set xs. py_hashable x \<Longrightarrow> map_exn py_hash xs = Inr xs"
  by (induction xs) (simp_all add: then_exn_def py_hash_def)

lemma dict_get_present:
  "py_key k \<in> set (map (\<lambda>kv. py_key (fst kv)) d) \<Longrightarrow> dict_get d k \<noteq> None"
  by (induction d) (auto simp: dict_get_def)

lemma dict_set_keys:
  "py_key k \<in> set (map (\<lambda>kv. py_key (fst kv)) d) \<Longrightarrow>
   map (\<lambda>kv. py_key (fst kv)) (dict_set d k v) = map (\<lambda>kv. py_key (fst kv)) d"
  by (simp add: dict_set_def comp_def)

lemma group_loop_returns:
  "set (map (\<lambda>s. py_key (lan s)) ss) \<subseteq> set (map (\<lambda>kv. py_key (fst kv)) d) \<Longrightarrow>
   \<exists>d'. group_loop d ss = Inr d'"
proof (induction ss arbitrary: d)
  case Nil
  show ?case by simp
next
  case (Cons s ss)
  from Cons.prems have mem: "py_key (lan s) \<in> set (map (\<lambda>kv. py_key (fst kv)) d)" by simp
  then obtain vs where vs: "dict_get d (lan s) = Some vs"
    using dict_get_present [of "lan s" d] by auto
  let ?d1 = "dict_set d (lan s) (vs @ [uri s])"
  have "map (\<lambda>kv. py_key (fst kv)) ?d1 = map (\<lambda>kv. py_key (fst kv)) d"
    using mem by (rule dict_set_keys)
  with Cons.prems have "set (map (\<lambda>s. py_key (lan s)) ss) \<subseteq> set (map (\<lambda>kv. py_key (fst kv)) ?d1)"
    by simp
  then obtain d' where "group_loop ?d1 ss = Inr d'"
    using Cons.IH by blast
  with vs show ?case by (simp add: dict_append_def then_exn_def)
qed

text \<open>The grouping returns whenever every label is hashable.\<close>

lemma lan_songs_dict_returns:
  assumes "\<forall>s \<in> set songs. py_hashable (lan s)"
    and "\<And>ks. mset (set_order ks) = mset ks"
  shows "\<exists>d. lan_songs_dict set_order songs = Inr d"
proof -
  let ?ks = "fold set_add (map lan songs) []"
  have ks: "py_set (map lan songs) = Inr ?ks"
    using assms(1) by (simp add: py_set_def then_exn_def map_exn_py_hash_returns)
  from py_set_keys [OF ks] have dk: "distinct (map py_key ?ks)"
    and sk: "set (map py_key ?ks) = set (map py_key (map lan songs))" by simp_all
  from perm_keys [of set_order ?ks, OF assms(2) dk]
  have same: "set (map py_key (set_order ?ks)) = set (map py_key ?ks)" by simp
  have "set (map (\<lambda>s. py_key (lan s)) songs)
          \<subseteq> set (map (\<lambda>kv. py_key (fst kv)) (map (\<lambda>l. (l, [])) (set_order ?ks)))"
    unfolding empty_groups_keys using same sk by (simp add: comp_def)
  then obtain d where "group_loop (map (\<lambda>l. (l, [])) (set_order ?ks)) songs = Inr d"
    using group_loop_returns by blast
  with ks show ?thesis by (simp add: lan_songs_dict_def then_exn_def)
qed

end
